theory Spec2Isabelle
  imports Complex_Main "HOL-Library.AList"
begin

section \<open>pylibofp: events, exceptions and the controller object\<close>

text \<open>
  The first half of this development embeds \<^verbatim>\<open>src/pylibofp/controller.py\<close>.
  An event is an \<^verbatim>\<open>ObjectView\<close> over a JSON object; the controller reads only the
  keys \<^verbatim>\<open>event\<close>, \<^verbatim>\<open>type\<close> and \<^verbatim>\<open>flags\<close> of it in the functions modelled here, so an
  event is a record of these three optional keys and an opaque rest. A missing key is
  \<open>None\<close>: reading it as an attribute raises \<^verbatim>\<open>AttributeError\<close> in the source.
\<close>

record event =
  ev_event :: "string option"
  ev_type :: "string option"
  ev_flags :: "string list option"
  ev_rest :: "(string \<times> string) list"

text \<open>
  Modelled from the spec: \<^verbatim>\<open>pylibofp/event.py\<close> is not among the sources; a synthetic
  internal event carries the discriminator \<^verbatim>\<open>event: E\<close> and nothing else.
\<close>

definition make_event :: "string \<Rightarrow> event" where
  "make_event name = \<lparr>ev_event = Some name, ev_type = None, ev_flags = None, ev_rest = []\<rparr>"

text \<open>
  The exceptions the modelled code raises or passes on. The first four are the classes
  of \<^verbatim>\<open>pylibofp.exception\<close> that the controller instantiates; the others are Python's own,
  the last one standing for any exception a user's handler raises.
\<close>

datatype exc =
    RPCException event
  | ErrorException event
  | DeliveryException event
  | TimeoutException int
  | ValueError string
  | KeyError string
  | AttributeError
  | AssertionError
  | InvalidStateError
  | StopAsyncIteration
  | TypeError
  | OtherException string

text \<open>
  Modelled from the spec: \<^verbatim>\<open>pylibofp/exception.py\<close> is not among the sources. The
  controller errors (RPC error, OF error, delivery alert, timeout) are the classes
  derived from \<^verbatim>\<open>ControllerException\<close>; a built-in exception of Python is never an
  instance of a class defined by the package.
\<close>

fun is_ControllerException :: "exc \<Rightarrow> bool" where
  "is_ControllerException (RPCException _) = True"
| "is_ControllerException (ErrorException _) = True"
| "is_ControllerException (DeliveryException _) = True"
| "is_ControllerException (TimeoutException _) = True"
| "is_ControllerException _ = False"

datatype except_class = RPCExceptionClass | ErrorExceptionClass | DeliveryExceptionClass

fun instantiate :: "except_class \<Rightarrow> event \<Rightarrow> exc" where
  "instantiate RPCExceptionClass ev = RPCException ev"
| "instantiate ErrorExceptionClass ev = ErrorException ev"
| "instantiate DeliveryExceptionClass ev = DeliveryException ev"

subsection \<open>The reply future\<close>

text \<open>
  \<^verbatim>\<open>_results\<close> holds replies and exception objects alike; \<^verbatim>\<open>_immediate_result\<close> tells
  them apart with \<^verbatim>\<open>isinstance(result, Exception)\<close>.
\<close>

datatype item = Reply event | Exn exc

text \<open>
  \<open>rf_future\<close> is \<^verbatim>\<open>self._future\<close>: \<open>None\<close>, or the pending \<^verbatim>\<open>asyncio.Future\<close> a
  suspended awaiter waits on. When the source resolves that future and forgets it, the
  awaiter is resumed with the item; \<open>rf_resumed\<close> lists these items in order. It is
  the only field that is not an attribute of the Python object.
\<close>

record reply_future =
  rf_xid :: int
  rf_results :: "item list"
  rf_future :: "unit option"
  rf_done :: bool
  rf_resumed :: "item list"

definition ReplyFuture :: "int \<Rightarrow> reply_future" where
  "ReplyFuture x = \<lparr>rf_xid = x, rf_results = [], rf_future = None, rf_done = False, rf_resumed = []\<rparr>"

subsection \<open>The controller\<close>

text \<open>
  Reply futures are shared between the request table and the requester, so they live
  in a store \<open>c_heap\<close> addressed by references; \<open>c_next_ref\<close> is the next free
  reference. \<open>c_reqs\<close> is the dictionary \<^verbatim>\<open>_reqs\<close> in insertion order, \<open>c_tasks\<close> the
  dictionary \<^verbatim>\<open>_tasks\<close> from scope key to task list. A task is a number. \<open>c_trace\<close>
  records, in program order, the calls of \<^verbatim>\<open>task.cancel()\<close> and of
  \<^verbatim>\<open>_event_queue.put_nowait\<close>. Timestamps of the loop clock are real numbers.
\<close>

datatype effect = TaskCancel nat | QueuePut event

record controller =
  c_xid :: int
  c_reqs :: "(int \<times> (nat \<times> real)) list"
  c_event_queue :: "event list option"
  c_ofp_versions :: "int list"
  c_tls_id :: int
  c_tasks :: "(string \<times> nat list) list"
  c_phase :: string
  c_heap :: "nat \<Rightarrow> reply_future"
  c_next_ref :: nat
  c_trace :: "effect list"

definition XID_TIMEOUT :: real where "XID_TIMEOUT = 10"
definition MIN_XID :: int where "MIN_XID = 8092"
definition MAX_XID :: int where "MAX_XID = 0xFFFFFFFF"
definition API_VERSION :: int where "API_VERSION = 1"

definition Controller_init :: controller where
  "Controller_init = \<lparr>c_xid = MIN_XID, c_reqs = [], c_event_queue = None,
     c_ofp_versions = [], c_tls_id = 0, c_tasks = [], c_phase = ''INIT'',
     c_heap = (\<lambda>_. ReplyFuture 0), c_next_ref = 0, c_trace = []\<rparr>"

subsection \<open>Transaction identifiers\<close>

definition next_xid :: "controller \<Rightarrow> controller \<times> int" where
  "next_xid c =
     (if c_xid c = MAX_XID then (c\<lparr>c_xid := MIN_XID\<rparr>, MIN_XID)
      else (c\<lparr>c_xid := c_xid c + 1\<rparr>, c_xid c + 1))"

text \<open>The xids returned by \<open>n\<close> successive calls, and the controller after them.\<close>

fun next_xids :: "nat \<Rightarrow> controller \<Rightarrow> controller \<times> int list" where
  "next_xids 0 c = (c, [])"
| "next_xids (Suc n) c =
     (case next_xid c of (c1, x) \<Rightarrow>
        (case next_xids n c1 of (c2, xs) \<Rightarrow> (c2, x # xs)))"

subsection \<open>Tasks and phases\<close>

text \<open>\<^verbatim>\<open>for task in task_list: task.cancel()\<close>\<close>

definition cancel_each :: "controller \<Rightarrow> nat list \<Rightarrow> controller" where
  "cancel_each c task_list = c\<lparr>c_trace := c_trace c @ map TaskCancel task_list\<rparr>"

definition cancel_tasks :: "controller \<Rightarrow> string \<Rightarrow> controller" where
  "cancel_tasks c scope_key =
     (let c1 = (if scope_key = ''START'' \<or> scope_key = ''STOP''
                then cancel_each c (concat (map snd (c_tasks c)))
                else c)
      in case map_of (c_tasks c1) scope_key of
           None \<Rightarrow> c1
         | Some task_list \<Rightarrow> cancel_each c1 task_list)"

text \<open>
  \<^verbatim>\<open>_post_event\<close> calls \<^verbatim>\<open>put_nowait\<close> on \<^verbatim>\<open>self._event_queue\<close>, which is \<^verbatim>\<open>None\<close> before
  \<^verbatim>\<open>_run\<close> creates the queue and after it has finished.
\<close>

definition post_event :: "controller \<Rightarrow> event \<Rightarrow> controller \<times> exc option" where
  "post_event c ev =
     (case c_event_queue c of
        None \<Rightarrow> (c, Some AttributeError)
      | Some q \<Rightarrow>
          (c\<lparr>c_event_queue := Some (q @ [ev]), c_trace := c_trace c @ [QueuePut ev]\<rparr>, None))"

text \<open>
  In \<^verbatim>\<open>_set_phase\<close> the post is guarded by \<^verbatim>\<open>if self._event_queue\<close>, so it cannot
  raise there.
\<close>

definition set_phase :: "controller \<Rightarrow> string \<Rightarrow> controller" where
  "set_phase c new_phase =
     (let c1 = (if c_phase c \<noteq> ''PRESTART'' then cancel_tasks c (c_phase c) else c);
          c2 = c1\<lparr>c_phase := new_phase\<rparr>
      in case c_event_queue c2 of
           None \<Rightarrow> c2
         | Some _ \<Rightarrow> fst (post_event c2 (make_event new_phase)))"

subsection \<open>The start sequence\<close>

text \<open>
  \<^verbatim>\<open>_start\<close> runs beside the event loop. Each \<^verbatim>\<open>await self._rpc_call(...)\<close> takes the
  next xid, writes the request and suspends on its reply future until \<^verbatim>\<open>_handle_xid\<close>
  or \<^verbatim>\<open>_idle\<close> resolves it; the awaiter then gets the reply, or the exception is raised
  in it. What the backend answers is an input of the model: a reply, or the exception
  the awaiter sees (\<open>RPCException\<close> for an error reply, \<open>TimeoutException\<close> from the
  sweeper). The request table is covered on its own further down.
\<close>

record description =
  major_version :: int
  minor_version :: int
  ofp_versions :: "int list"
  software_version :: string

record backend =
  on_description :: "exc + description"
  on_add_identity :: "exc + int"
  on_listen :: "string \<Rightarrow> exc + int"

definition rpc_call_await :: "controller \<Rightarrow> exc + 'a \<Rightarrow> controller \<times> (exc + 'a)" where
  "rpc_call_await c answer = (fst (next_xid c), answer)"

text \<open>
  The \<^verbatim>\<open>except _exc.ControllerException\<close> clauses of the three helpers log and
  re-raise (two of them log \<^verbatim>\<open>ex.message\<close>, which the classes of \<^verbatim>\<open>pylibofp.exception\<close>
  are taken to provide); any other exception passes through them untouched. Either way
  the exception leaves the helper.
\<close>

definition get_description :: "controller \<Rightarrow> backend \<Rightarrow> controller \<times> exc option" where
  "get_description c b =
     (case rpc_call_await c (on_description b) of
        (c1, Inl ex) \<Rightarrow> (c1, Some ex)
      | (c1, Inr result) \<Rightarrow>
          if major_version result > API_VERSION
          then (c1, Some (ValueError ''Unsupported API version''))
          else (c1\<lparr>c_ofp_versions := ofp_versions result\<rparr>, None))"

text \<open>\<open>security\<close> is a dictionary; \<^verbatim>\<open>security['cert']\<close> raises on a missing key.\<close>

definition configure_tls ::
  "controller \<Rightarrow> (string \<times> string) list \<Rightarrow> backend \<Rightarrow> controller \<times> exc option" where
  "configure_tls c security b =
     (case map_of security ''cert'' of
        None \<Rightarrow> (c, Some (KeyError ''cert''))
      | Some _ \<Rightarrow>
     (case map_of security ''cafile'' of
        None \<Rightarrow> (c, Some (KeyError ''cafile''))
      | Some _ \<Rightarrow>
     (case rpc_call_await c (on_add_identity b) of
        (c1, Inl ex) \<Rightarrow> (c1, Some ex)
      | (c1, Inr tls) \<Rightarrow> (c1\<lparr>c_tls_id := tls\<rparr>, None))))"

fun listen_on_endpoints ::
  "controller \<Rightarrow> string list \<Rightarrow> backend \<Rightarrow> controller \<times> exc option" where
  "listen_on_endpoints c [] b = (c, None)"
| "listen_on_endpoints c (endpt # rest) b =
     (case rpc_call_await c (on_listen b endpt) of
        (c1, Inl ex) \<Rightarrow> (c1, Some ex)
      | (c1, Inr conn_id) \<Rightarrow> listen_on_endpoints c1 rest b)"

text \<open>
  The handler of \<^verbatim>\<open>_start\<close>: \<^verbatim>\<open>except _exc.ControllerException\<close> posts the two events;
  an exception of another class leaves \<^verbatim>\<open>_start\<close>.
\<close>

definition start_except :: "controller \<Rightarrow> exc \<Rightarrow> controller \<times> exc option" where
  "start_except c ex =
     (if is_ControllerException ex
      then (case post_event c (make_event ''STARTFAIL'') of
              (c1, Some ex1) \<Rightarrow> (c1, Some ex1)
            | (c1, None) \<Rightarrow> post_event c1 (make_event ''EXIT''))
      else (c, Some ex))"

definition start ::
  "controller \<Rightarrow> string list \<Rightarrow> (string \<times> string) list \<Rightarrow> backend \<Rightarrow> controller \<times> exc option" where
  "start c listen_endpoints security b =
     (case get_description c b of
        (c1, Some ex) \<Rightarrow> start_except c1 ex
      | (c1, None) \<Rightarrow>
     (case (if security \<noteq> [] then configure_tls c1 security b else (c1, None)) of
        (c2, Some ex) \<Rightarrow> start_except c2 ex
      | (c2, None) \<Rightarrow>
     (case (if listen_endpoints \<noteq> [] then listen_on_endpoints c2 listen_endpoints b
            else (c2, None)) of
        (c3, Some ex) \<Rightarrow> start_except c3 ex
      | (c3, None) \<Rightarrow> (set_phase c3 ''START'', None))))"

text \<open>
  The controller as \<^verbatim>\<open>_run\<close> leaves it when it schedules \<^verbatim>\<open>_start\<close>: the queue exists
  and is empty, the phase has been set to \<^verbatim>\<open>PRESTART\<close> and its event posted.
\<close>

definition Controller_prestart :: controller where
  "Controller_prestart = set_phase (Controller_init\<lparr>c_event_queue := Some []\<rparr>) ''PRESTART''"

subsection \<open>Methods of the reply future\<close>

definition rf_is_done :: "reply_future \<Rightarrow> bool" where
  "rf_is_done h = (rf_results h = [] \<and> rf_done h)"

definition set_done :: "reply_future \<Rightarrow> exc + reply_future" where
  "set_done h = (if rf_done h then Inl AssertionError else Inr (h\<lparr>rf_done := True\<rparr>))"

definition set_item :: "reply_future \<Rightarrow> item \<Rightarrow> reply_future" where
  "set_item h x =
     (case rf_future h of
        None \<Rightarrow> h\<lparr>rf_results := rf_results h @ [x]\<rparr>
      | Some _ \<Rightarrow> h\<lparr>rf_resumed := rf_resumed h @ [x], rf_future := None\<rparr>)"

definition set_result :: "reply_future \<Rightarrow> event \<Rightarrow> reply_future" where
  "set_result h result = set_item h (Reply result)"

definition set_exception :: "reply_future \<Rightarrow> exc \<Rightarrow> reply_future" where
  "set_exception h ex = set_item h (Exn ex)"

text \<open>What an \<^verbatim>\<open>await\<close> does to its caller: a value, an exception, or suspension.\<close>

datatype outcome = Returned event | Raised exc | Suspended

fun immediate_result :: "item \<Rightarrow> outcome" where
  "immediate_result (Reply result) = Returned result"
| "immediate_result (Exn ex) = Raised ex"

definition rf_await :: "reply_future \<Rightarrow> reply_future \<times> outcome" where
  "rf_await h =
     (case rf_future h of
        Some _ \<Rightarrow> (h, Raised AssertionError)
      | None \<Rightarrow>
          (case rf_results h of
             x # xs \<Rightarrow> (h\<lparr>rf_results := xs\<rparr>, immediate_result x)
           | [] \<Rightarrow>
               if rf_done h then (h, Raised InvalidStateError)
               else (h\<lparr>rf_future := Some ()\<rparr>, Suspended)))"




subsection \<open>The request table\<close>

text \<open>
  \<^verbatim>\<open>_event_has_more\<close>: a missing \<^verbatim>\<open>type\<close> or \<^verbatim>\<open>flags\<close> raises \<^verbatim>\<open>AttributeError\<close>, which
  the function turns into \<^verbatim>\<open>False\<close>.
\<close>

definition event_has_more :: "event \<Rightarrow> bool" where
  "event_has_more ev =
     (case ev_type ev of
        None \<Rightarrow> False
      | Some t \<Rightarrow>
          take 6 t = ''REPLY.'' \<and>
          (case ev_flags ev of None \<Rightarrow> False | Some fl \<Rightarrow> ''MORE'' \<in> set fl))"

text \<open>
  \<^verbatim>\<open>_write\<close> hands the frame to the connection, which is outside this model, and, when
  an xid is given, registers a new reply future under it. The result is the reference
  of the future, or \<open>None\<close>. \<open>now\<close> is what \<^verbatim>\<open>_timestamp()\<close> reads.
\<close>

definition write_event :: "controller \<Rightarrow> int option \<Rightarrow> real \<Rightarrow> controller \<times> (exc + nat option)" where
  "write_event c xid now =
     (case xid of
        None \<Rightarrow> (c, Inr None)
      | Some x \<Rightarrow>
          if \<not> x > 0 then (c, Inl AssertionError)
          else
            let fut = c_next_ref c;
                expiration = now + XID_TIMEOUT
            in (c\<lparr>c_heap := (c_heap c)(fut := ReplyFuture x),
                   c_next_ref := Suc fut,
                   c_reqs := AList.update x (fut, expiration) (c_reqs c)\<rparr>,
                Inr (Some fut)))"

definition rpc_call :: "controller \<Rightarrow> real \<Rightarrow> controller \<times> (exc + nat option)" where
  "rpc_call c now = (case next_xid c of (c1, x) \<Rightarrow> write_event c1 (Some x) now)"

definition handle_xid ::
  "controller \<Rightarrow> event \<Rightarrow> int \<Rightarrow> except_class option \<Rightarrow> controller \<times> (exc + bool)" where
  "handle_xid c ev x except_cls =
     (case map_of (c_reqs c) x of
        None \<Rightarrow> (c, Inr False)
      | Some (fut, _) \<Rightarrow>
          let h1 = (case except_cls of
                      Some cls \<Rightarrow> set_exception (c_heap c fut) (instantiate cls ev)
                    | None \<Rightarrow> set_result (c_heap c fut) ev);
              c1 = c\<lparr>c_heap := (c_heap c)(fut := h1)\<rparr>
          in if \<not> event_has_more ev \<or> except_cls \<noteq> None
             then (case set_done h1 of
                     Inl ex \<Rightarrow> (c1, Inl ex)
                   | Inr h2 \<Rightarrow>
                       (c1\<lparr>c_heap := (c_heap c1)(fut := h2),
                           c_reqs := AList.delete x (c_reqs c1)\<rparr>, Inr True))
             else (c1, Inr True))"

text \<open>
  \<^verbatim>\<open>_idle\<close>: the list \<^verbatim>\<open>timed_out\<close> is built first, then each entry gets the timeout
  exception and is deleted from the table. The keys of a dictionary are distinct, so
  the \<^verbatim>\<open>del\<close> finds its key. Re-arming the timer is outside the model.
\<close>

definition timed_out :: "controller \<Rightarrow> real \<Rightarrow> (int \<times> nat) list" where
  "timed_out c now =
     map (\<lambda>(x, fut, expiration). (x, fut))
       (filter (\<lambda>(x, fut, expiration). expiration \<le> now) (c_reqs c))"

fun idle_loop :: "controller \<Rightarrow> (int \<times> nat) list \<Rightarrow> controller" where
  "idle_loop c [] = c"
| "idle_loop c ((x, fut) # rest) =
     idle_loop
       (c\<lparr>c_heap := (c_heap c)(fut := set_exception (c_heap c fut) (TimeoutException x)),
          c_reqs := AList.delete x (c_reqs c)\<rparr>)
       rest"

definition idle :: "controller \<Rightarrow> real \<Rightarrow> controller" where
  "idle c now = idle_loop c (timed_out c now)"

text \<open>The requester awaiting the future at a reference, or its \<^verbatim>\<open>__anext__\<close>.\<close>

definition await_at :: "controller \<Rightarrow> nat \<Rightarrow> controller \<times> outcome" where
  "await_at c fut =
     (case rf_await (c_heap c fut) of (h, out) \<Rightarrow> (c\<lparr>c_heap := (c_heap c)(fut := h)\<rparr>, out))"



subsection \<open>Notions the properties are stated with\<close>

text \<open>The tasks recorded under a scope key, and all tasks of the registry.\<close>

definition scope_tasks :: "controller \<Rightarrow> string \<Rightarrow> nat list" where
  "scope_tasks c scope_key =
     (case map_of (c_tasks c) scope_key of None \<Rightarrow> [] | Some task_list \<Rightarrow> task_list)"

definition all_tasks :: "controller \<Rightarrow> nat list" where
  "all_tasks c = concat (map snd (c_tasks c))"

text \<open>The post of the phase event, made when the queue exists.\<close>

definition phase_event_put :: "controller \<Rightarrow> string \<Rightarrow> effect list" where
  "phase_event_put c p =
     (case c_event_queue c of None \<Rightarrow> [] | Some _ \<Rightarrow> [QueuePut (make_event p)])"

text \<open>A backend whose description reports major API version 2.\<close>

definition backend_v2 :: backend where
  "backend_v2 =
     \<lparr>on_description = Inr \<lparr>major_version = 2, minor_version = 0, ofp_versions = [1, 4],
        software_version = ''0.1''\<rparr>,
      on_add_identity = Inr 1,
      on_listen = (\<lambda>_. Inr 1)\<rparr>"

text \<open>
  A reply future is in the table when some entry of \<^verbatim>\<open>_reqs\<close> holds its reference. The
  invariant of the reply tracker, in the words of the specification: a handle is
  either in the table and not marked done, or out of it and marked done.
\<close>

definition in_table :: "controller \<Rightarrow> nat \<Rightarrow> bool" where
  "in_table c fut = (fut \<in> set (map (\<lambda>(x, f, expiration). f) (c_reqs c)))"

definition handle_consistent :: "controller \<Rightarrow> nat \<Rightarrow> bool" where
  "handle_consistent c fut =
     ((in_table c fut \<and> \<not> rf_done (c_heap c fut))
      \<or> (\<not> in_table c fut \<and> rf_done (c_heap c fut)))"

text \<open>
  The controller after one \<^verbatim>\<open>_rpc_call\<close> at time 0 in phase \<^verbatim>\<open>PRESTART\<close>: xid 8093 is
  registered with the future at reference 0, which expires at time 10.
\<close>

definition Controller_registered :: controller where
  "Controller_registered = fst (rpc_call Controller_prestart 0)"

text \<open>
  The same request, once aged out by the sweeper at time 10 and once answered by the
  backend with an error reply.
\<close>

definition error_reply :: event where
  "error_reply =
     \<lparr>ev_event = None, ev_type = None, ev_flags = None, ev_rest = [(''error'', ''failed'')]\<rparr>"

definition Controller_timed_out :: controller where
  "Controller_timed_out = idle Controller_registered 10"

definition Controller_failed :: controller where
  "Controller_failed =
     fst (handle_xid Controller_registered error_reply 8093 (Some RPCExceptionClass))"


subsection \<open>Iteration, delivery of a reply stream, reachable controllers\<close>




















section \<open>zof: events, datapaths, apps and the controller object\<close>

text \<open>
  The second half embeds \<^verbatim>\<open>src/zof/controller.py\<close>. An event is a dictionary; the
  driver asserts that it has a \<^verbatim>\<open>type\<close>, and the dispatcher reads \<^verbatim>\<open>conn_id\<close> and
  \<^verbatim>\<open>datapath_id\<close> besides. \<open>None\<close> is a missing key.
\<close>

record zevent =
  z_type :: string
  z_conn_id :: "int option"
  z_datapath_id :: "string option"
  z_rest :: "(string \<times> string) list"

definition channel_down_event :: zevent where
  "channel_down_event =
     \<lparr>z_type = ''CHANNEL_DOWN'', z_conn_id = None, z_datapath_id = None, z_rest = []\<rparr>"

text \<open>
  Modelled from the spec: \<^verbatim>\<open>zof/datapath.py\<close> and \<^verbatim>\<open>zof/tasklist.py\<close> are not among the
  sources. A datapath holds its two keys, the \<^verbatim>\<open>closed\<close> flag and the tasks spawned
  under its scope; \<^verbatim>\<open>zof_cancel_tasks\<close> cancels every task of that scope.
\<close>

record datapath =
  dp_id :: int
  dp_conn_id :: int
  dp_closed :: bool
  dp_tasks :: "nat list"

text \<open>
  An app is an object whose attributes are looked up by name with \<^verbatim>\<open>getattr\<close>. An
  attribute is a callable: it is or is not a coroutine function, and a call of it
  returns or raises. What a handler does beyond that is not seen by the dispatcher.
\<close>

datatype call_args = HandlerArgs "datapath option" zevent | ExceptionArgs exc | NoArgs

record callable =
  is_coroutine :: bool
  call :: "call_args \<Rightarrow> exc option"

type_synonym app = "(string \<times> callable) list"

text \<open>
  A handler found by \<^verbatim>\<open>zof_find_handlers\<close>: the bound method of the app at an index, or
  the controller's own \<^verbatim>\<open>on_channel_alert\<close>.
\<close>

datatype handler = AppHandler nat string callable | DefaultChannelAlert

text \<open>
  The trace lists what the dispatcher does to the outside, in program order: calls of
  handlers (app index, handler name, datapath reference, event), of \<^verbatim>\<open>on_exception\<close>
  methods and of lifecycle methods, log records, \<^verbatim>\<open>task.cancel()\<close>, the wait for
  cancelled tasks, and the two payload hooks.
\<close>

datatype zeffect =
    Called nat string "nat option" zevent
  | DefaultAlertCalled "nat option" zevent
  | ExceptionCalled nat exc
  | LifecycleCalled nat string
  | LogCritical string exc
  | LogWarning string
  | Cancelled nat
  | WaitCancelled real
  | PacketHook zevent
  | PortStatusHook nat zevent

text \<open>
  Datapath objects are shared between \<^verbatim>\<open>_connections\<close>, \<^verbatim>\<open>_dpids\<close> and the handlers, so
  they live in a store \<open>z_heap\<close>; the two dictionaries hold references.
\<close>

record zcontroller =
  z_connections :: "(int \<times> nat) list"
  z_dpids :: "(int \<times> nat) list"
  z_apps :: "app list"
  z_handler_cache :: "(string \<times> handler list) list"
  z_tasks :: "nat list"
  z_heap :: "nat \<Rightarrow> datapath"
  z_next_ref :: nat
  z_trace :: "zeffect list"

definition EXIT_STATUS_OKAY :: int where "EXIT_STATUS_OKAY = 0"
definition EXIT_STATUS_ERROR :: int where "EXIT_STATUS_ERROR = 10"

definition ZController :: "app list \<Rightarrow> zcontroller" where
  "ZController apps =
     \<lparr>z_connections = [], z_dpids = [], z_apps = apps, z_handler_cache = [], z_tasks = [],
      z_heap = (\<lambda>_. \<lparr>dp_id = 0, dp_conn_id = 0, dp_closed = False, dp_tasks = []\<rparr>),
      z_next_ref = 0, z_trace = []\<rparr>"

definition log_effect :: "zcontroller \<Rightarrow> zeffect \<Rightarrow> zcontroller" where
  "log_effect c e = c\<lparr>z_trace := z_trace c @ [e]\<rparr>"

subsection \<open>Finding and calling handlers\<close>

definition lower_char :: "char \<Rightarrow> char" where
  "lower_char ch =
     (let n = of_char ch :: nat in if 65 \<le> n \<and> n \<le> 90 then char_of (n + 32) else ch)"

definition handler_name_of :: "string \<Rightarrow> string" where
  "handler_name_of event_type = ''on_'' @ map lower_char event_type"

text \<open>
  The loop of \<^verbatim>\<open>zof_find_handlers\<close> over the apps; the assertion refuses a coroutine
  function.
\<close>

fun collect_handlers :: "app list \<Rightarrow> nat \<Rightarrow> string \<Rightarrow> exc + handler list" where
  "collect_handlers [] i handler_name = Inr []"
| "collect_handlers (a # rest) i handler_name =
     (case map_of a handler_name of
        None \<Rightarrow> collect_handlers rest (Suc i) handler_name
      | Some f \<Rightarrow>
          if is_coroutine f then Inl AssertionError
          else (case collect_handlers rest (Suc i) handler_name of
                  Inl ex \<Rightarrow> Inl ex
                | Inr hs \<Rightarrow> Inr (AppHandler i handler_name f # hs)))"

definition zof_find_handlers :: "zcontroller \<Rightarrow> string \<Rightarrow> zcontroller \<times> (exc + handler list)" where
  "zof_find_handlers c event_type =
     (let handler_name = handler_name_of event_type in
      case map_of (z_handler_cache c) handler_name of
        Some handlers \<Rightarrow> (c, Inr handlers)
      | None \<Rightarrow>
          (case collect_handlers (z_apps c) 0 handler_name of
             Inl ex \<Rightarrow> (c, Inl ex)
           | Inr found \<Rightarrow>
               let handlers = (if handler_name = ''on_channel_alert'' \<and> found = []
                               then [DefaultChannelAlert] else found)
               in (c\<lparr>z_handler_cache := AList.update handler_name handlers (z_handler_cache c)\<rparr>,
                   Inr handlers)))"

text \<open>
  \<^verbatim>\<open>on_exception\<close>: a \<^verbatim>\<open>for\<close> loop with \<^verbatim>\<open>break\<close> and an \<^verbatim>\<open>else\<close> clause. The method it
  calls may itself raise.
\<close>

fun on_exception_from :: "zcontroller \<Rightarrow> app list \<Rightarrow> nat \<Rightarrow> exc \<Rightarrow> zcontroller \<times> exc option" where
  "on_exception_from c [] i ex =
     (log_effect c (LogCritical ''Exception in zof handler'' ex), None)"
| "on_exception_from c (a # rest) i ex =
     (case map_of a ''on_exception'' of
        None \<Rightarrow> on_exception_from c rest (Suc i) ex
      | Some exc_handler \<Rightarrow>
          if is_coroutine exc_handler then (c, Some AssertionError)
          else (log_effect c (ExceptionCalled i ex), call exc_handler (ExceptionArgs ex)))"

definition on_exception :: "zcontroller \<Rightarrow> exc \<Rightarrow> zcontroller \<times> exc option" where
  "on_exception c ex = on_exception_from c (z_apps c) 0 ex"

text \<open>\<^verbatim>\<open>handler(dp, event)\<close>: the handler sees the datapath object as it is at the call.\<close>

definition invoke :: "zcontroller \<Rightarrow> handler \<Rightarrow> nat option \<Rightarrow> zevent \<Rightarrow> zcontroller \<times> exc option" where
  "invoke c h dp ev =
     (case h of
        AppHandler i handler_name f \<Rightarrow>
          (log_effect c (Called i handler_name dp ev),
           call f (HandlerArgs (map_option (z_heap c) dp) ev))
      | DefaultChannelAlert \<Rightarrow>
          (log_effect (log_effect c (DefaultAlertCalled dp ev)) (LogWarning ''CHANNEL_ALERT''),
           None))"

fun run_handlers ::
  "zcontroller \<Rightarrow> handler list \<Rightarrow> nat option \<Rightarrow> zevent \<Rightarrow> zcontroller \<times> exc option" where
  "run_handlers c [] dp ev = (c, None)"
| "run_handlers c (h # hs) dp ev =
     (case invoke c h dp ev of
        (c1, None) \<Rightarrow> run_handlers c1 hs dp ev
      | (c1, Some ex) \<Rightarrow>
          (case on_exception c1 ex of
             (c2, None) \<Rightarrow> run_handlers c2 hs dp ev
           | (c2, Some ex2) \<Rightarrow> (c2, Some ex2)))"

definition zof_dispatch_event ::
  "zcontroller \<Rightarrow> string \<Rightarrow> nat option \<Rightarrow> zevent \<Rightarrow> zcontroller \<times> exc option" where
  "zof_dispatch_event c event_type dp ev =
     (case zof_find_handlers c event_type of
        (c1, Inl ex) \<Rightarrow> (c1, Some ex)
      | (c1, Inr handlers) \<Rightarrow> run_handlers c1 handlers dp ev)"

subsection \<open>Bookkeeping of connected datapaths\<close>

text \<open>
  \<^verbatim>\<open>int(s, 16)\<close> on a string of hexadecimal digits; the model raises \<^verbatim>\<open>ValueError\<close> on
  every other string (Python also accepts a sign, a \<^verbatim>\<open>0x\<close> prefix, underscores and
  surrounding blanks, which a datapath id never has).
\<close>

definition hex_value :: "char \<Rightarrow> nat option" where
  "hex_value ch =
     (let n = of_char ch :: nat in
      if 48 \<le> n \<and> n \<le> 57 then Some (n - 48)
      else if 97 \<le> n \<and> n \<le> 102 then Some (n - 87)
      else if 65 \<le> n \<and> n \<le> 70 then Some (n - 55)
      else None)"

fun hex_digits :: "string \<Rightarrow> nat \<Rightarrow> nat option" where
  "hex_digits [] acc = Some acc"
| "hex_digits (ch # rest) acc =
     (case hex_value ch of None \<Rightarrow> None | Some d \<Rightarrow> hex_digits rest (16 * acc + d))"

definition int16 :: "string \<Rightarrow> exc + int" where
  "int16 s =
     (if s = [] then Inl (ValueError ''invalid literal for int()'')
      else case hex_digits s 0 of
             None \<Rightarrow> Inl (ValueError ''invalid literal for int()'')
           | Some n \<Rightarrow> Inr (int n))"

definition zof_cancel_tasks :: "zcontroller \<Rightarrow> nat \<Rightarrow> zcontroller" where
  "zof_cancel_tasks c dp = c\<lparr>z_trace := z_trace c @ map Cancelled (dp_tasks (z_heap c dp))\<rparr>"

definition zof_channel_up :: "zcontroller \<Rightarrow> zevent \<Rightarrow> zcontroller \<times> (exc + nat)" where
  "zof_channel_up c ev =
     (case z_conn_id ev of
        None \<Rightarrow> (c, Inl (KeyError ''conn_id''))
      | Some conn_id \<Rightarrow>
     (case z_datapath_id ev of
        None \<Rightarrow> (c, Inl (KeyError ''datapath_id''))
      | Some s \<Rightarrow>
     (case int16 (filter (\<lambda>ch. ch \<noteq> CHR '':'') s) of
        Inl ex \<Rightarrow> (c, Inl ex)
      | Inr dpid \<Rightarrow>
          if map_of (z_connections c) conn_id \<noteq> None then (c, Inl AssertionError)
          else if map_of (z_dpids c) dpid \<noteq> None then (c, Inl AssertionError)
          else
            let dp = z_next_ref c
            in (c\<lparr>z_heap := (z_heap c)
                     (dp := \<lparr>dp_id = dpid, dp_conn_id = conn_id, dp_closed = False, dp_tasks = []\<rparr>),
                   z_next_ref := Suc dp,
                   z_connections := AList.update conn_id dp (z_connections c),
                   z_dpids := AList.update dpid dp (z_dpids c)\<rparr>,
                Inr dp))))"

text \<open>
  \<^verbatim>\<open>zof_channel_down\<close> returns the datapath, or \<^verbatim>\<open>None\<close> when it was closed already.
  \<^verbatim>\<open>pop\<close> and \<^verbatim>\<open>del\<close> raise \<^verbatim>\<open>KeyError\<close> on a missing key; what was changed before an
  exception stays changed.
\<close>

definition zof_channel_down :: "zcontroller \<Rightarrow> zevent \<Rightarrow> zcontroller \<times> (exc + nat option)" where
  "zof_channel_down c ev =
     (case z_conn_id ev of
        None \<Rightarrow> (c, Inl (KeyError ''conn_id''))
      | Some conn_id \<Rightarrow>
     (case map_of (z_connections c) conn_id of
        None \<Rightarrow> (c, Inl (KeyError ''conn_id''))
      | Some dp \<Rightarrow>
          let c1 = c\<lparr>z_connections := AList.delete conn_id (z_connections c)\<rparr>;
              was_closed = dp_closed (z_heap c1 dp)
          in (case map_of (z_dpids c1) (dp_id (z_heap c1 dp)) of
                None \<Rightarrow> (c1, Inl (KeyError ''dp_id''))
              | Some _ \<Rightarrow>
                  let c2 = c1\<lparr>z_dpids := AList.delete (dp_id (z_heap c1 dp)) (z_dpids c1)\<rparr>;
                      c3 = zof_cancel_tasks c2 dp
                  in if was_closed then (c3, Inr None)
                     else (c3\<lparr>z_heap := (z_heap c3)(dp := (z_heap c3 dp)\<lparr>dp_closed := True\<rparr>)\<rparr>,
                           Inr (Some dp)))))"

definition zof_find_dp :: "zcontroller \<Rightarrow> zevent \<Rightarrow> zcontroller \<times> nat option" where
  "zof_find_dp c ev =
     (case z_conn_id ev of
        None \<Rightarrow> (c, None)
      | Some conn_id \<Rightarrow>
          (case map_of (z_connections c) conn_id of
             None \<Rightarrow> (log_effect c (LogWarning ''Unknown conn_id''), None)
           | Some dp \<Rightarrow> (c, Some dp)))"

subsection \<open>The event loop\<close>

text \<open>
  One round of the \<^verbatim>\<open>while\<close> loop up to its \<^verbatim>\<open>except\<close> clauses: the state, and the
  exception that reaches them if there is one. The two hooks belong to modules outside
  the sources and are recorded as effects.
\<close>

definition loop_body :: "zcontroller \<Rightarrow> zevent \<Rightarrow> zcontroller \<times> exc option" where
  "loop_body c ev =
     (let event_type = z_type ev in
      if event_type = ''CHANNEL_UP'' then
        (case zof_channel_up c ev of
           (c1, Inl ex) \<Rightarrow> (c1, Some ex)
         | (c1, Inr dp) \<Rightarrow> zof_dispatch_event c1 event_type (Some dp) ev)
      else if event_type = ''CHANNEL_DOWN'' then
        (case zof_channel_down c ev of
           (c1, Inl ex) \<Rightarrow> (c1, Some ex)
         | (c1, Inr None) \<Rightarrow> (c1, None)
         | (c1, Inr (Some dp)) \<Rightarrow> zof_dispatch_event c1 event_type (Some dp) ev)
      else
        (case zof_find_dp c ev of
           (c1, dp) \<Rightarrow>
             if (case dp of None \<Rightarrow> False | Some d \<Rightarrow> dp_closed (z_heap c1 d)) then (c1, None)
             else
               let c2 = (if event_type = ''PACKET_IN'' then log_effect c1 (PacketHook ev)
                         else (case dp of
                                 Some d \<Rightarrow>
                                   if event_type = ''PORT_STATUS''
                                   then log_effect c1 (PortStatusHook d ev) else c1
                               | None \<Rightarrow> c1))
               in zof_dispatch_event c2 event_type dp ev))"

text \<open>
  The loop leaves only by cancellation, at \<^verbatim>\<open>event_queue.get()\<close> or at the yield after
  a dispatch. The list holds the events the loop takes from the queue before that. An
  exception of a round is logged and the loop goes on with the next event.
\<close>

fun zof_event_loop :: "zcontroller \<Rightarrow> zevent list \<Rightarrow> zcontroller" where
  "zof_event_loop c [] = c"
| "zof_event_loop c (ev # evs) =
     (case loop_body c ev of
        (c1, None) \<Rightarrow> zof_event_loop c1 evs
      | (c1, Some ex) \<Rightarrow>
          zof_event_loop (log_effect c1 (LogCritical ''Exception in zof_event_loop'' ex)) evs)"

subsection \<open>Shutdown\<close>

fun cleanup_datapaths :: "zcontroller \<Rightarrow> nat list \<Rightarrow> zcontroller \<times> exc option" where
  "cleanup_datapaths c [] = (c, None)"
| "cleanup_datapaths c (dp # rest) =
     (if \<not> dp_closed (z_heap c dp) then
        let c1 = c\<lparr>z_heap := (z_heap c)(dp := (z_heap c dp)\<lparr>dp_closed := True\<rparr>)\<rparr>;
            c2 = zof_cancel_tasks c1 dp
        in (case zof_dispatch_event c2 ''CHANNEL_DOWN'' (Some dp) channel_down_event of
              (c3, Some ex) \<Rightarrow> (c3, Some ex)
            | (c3, None) \<Rightarrow> cleanup_datapaths c3 rest)
      else cleanup_datapaths c rest)"

text \<open>
  Modelled from the spec: \<^verbatim>\<open>TaskList.cancel\<close> cancels every task of the controller's
  list, and \<^verbatim>\<open>wait_cancelled(3.0)\<close> waits up to that many seconds for them.
\<close>

definition zof_cleanup :: "zcontroller \<Rightarrow> zcontroller \<times> exc option" where
  "zof_cleanup c =
     (case cleanup_datapaths c (map snd (z_connections c)) of
        (c1, Some ex) \<Rightarrow> (c1, Some ex)
      | (c1, None) \<Rightarrow>
          (c1\<lparr>z_trace := z_trace c1 @ map Cancelled (z_tasks c1) @ [WaitCancelled 3]\<rparr>, None))"

fun invoke_lifecycle_from ::
  "zcontroller \<Rightarrow> app list \<Rightarrow> nat \<Rightarrow> string \<Rightarrow> zcontroller \<times> exc option" where
  "invoke_lifecycle_from c [] i handler_name = (c, None)"
| "invoke_lifecycle_from c (a # rest) i handler_name =
     (case map_of a handler_name of
        None \<Rightarrow> invoke_lifecycle_from c rest (Suc i) handler_name
      | Some f \<Rightarrow>
          (case call f NoArgs of
             None \<Rightarrow>
               invoke_lifecycle_from (log_effect c (LifecycleCalled i handler_name)) rest (Suc i)
                 handler_name
           | Some ex \<Rightarrow> (log_effect c (LifecycleCalled i handler_name), Some ex)))"

definition zof_invoke_lifecycle :: "zcontroller \<Rightarrow> string \<Rightarrow> zcontroller \<times> exc option" where
  "zof_invoke_lifecycle c event_type =
     invoke_lifecycle_from c (z_apps c) 0 (handler_name_of event_type)"

text \<open>
  \<^verbatim>\<open>run\<close>, inside its two context managers. \<open>listen\<close> is the exception that
  \<^verbatim>\<open>zof_listen\<close> raises, if any (the driver is outside the sources); \<open>events\<close> are the
  events the loop handles before it is cancelled.
\<close>

definition run_failed :: "zcontroller \<Rightarrow> exc \<Rightarrow> zcontroller \<times> int" where
  "run_failed c ex = (log_effect c (LogCritical ''Exception in run'' ex), EXIT_STATUS_ERROR)"

definition run :: "zcontroller \<Rightarrow> exc option \<Rightarrow> zevent list \<Rightarrow> zcontroller \<times> int" where
  "run c listen events =
     (case zof_invoke_lifecycle c ''START'' of
        (c1, Some ex) \<Rightarrow> run_failed c1 ex
      | (c1, None) \<Rightarrow>
     (case listen of
        Some ex \<Rightarrow> run_failed c1 ex
      | None \<Rightarrow>
     (case zof_cleanup (zof_event_loop c1 events) of
        (c3, Some ex) \<Rightarrow> run_failed c3 ex
      | (c3, None) \<Rightarrow>
     (case zof_invoke_lifecycle c3 ''STOP'' of
        (c4, Some ex) \<Rightarrow> run_failed c4 ex
      | (c4, None) \<Rightarrow> (c4, EXIT_STATUS_OKAY)))))"


subsection \<open>Notions the properties of the dispatcher are stated with\<close>

text \<open>How often the app at index \<open>i\<close> has been shown a channel-down for a datapath.\<close>

definition channel_downs_seen :: "zcontroller \<Rightarrow> nat \<Rightarrow> nat \<Rightarrow> nat" where
  "channel_downs_seen c i dp =
     length (filter (\<lambda>e. case e of
                            Called j handler_name d ev \<Rightarrow>
                              j = i \<and> handler_name = ''on_channel_down'' \<and> d = Some dp
                          | _ \<Rightarrow> False)
               (z_trace c))"

text \<open>Handlers and events of small scenarios.\<close>

definition quiet :: callable where
  "quiet = \<lparr>is_coroutine = False, call = (\<lambda>_. None)\<rparr>"

definition failing :: callable where
  "failing = \<lparr>is_coroutine = False, call = (\<lambda>_. Some (OtherException ''FAIL''))\<rparr>"

definition basic_app :: app where
  "basic_app =
     [(''on_start'', quiet), (''on_stop'', quiet), (''on_channel_up'', quiet),
      (''on_channel_down'', quiet)]"

definition failing_app :: app where
  "failing_app = [(''on_channel_up'', failing), (''on_channel_down'', failing)]"

definition watcher_app :: app where
  "watcher_app = [(''on_exception'', quiet), (''on_channel_down'', quiet)]"

definition channel_up_2 :: zevent where
  "channel_up_2 =
     \<lparr>z_type = ''CHANNEL_UP'', z_conn_id = Some 2,
      z_datapath_id = Some ''00:00:00:00:00:00:00:01'', z_rest = []\<rparr>"

definition channel_down_2 :: zevent where
  "channel_down_2 =
     \<lparr>z_type = ''CHANNEL_DOWN'', z_conn_id = Some 2, z_datapath_id = None, z_rest = []\<rparr>"

text \<open>
  The controller after the channel-up of datapath 1 on connection 2, and the same after
  the datapath has been closed with the synthetic channel-down delivered.
\<close>

definition Z_up :: zcontroller where
  "Z_up = fst (loop_body (ZController [basic_app]) channel_up_2)"

definition Z_closed :: zcontroller where
  "Z_closed = fst (zof_cleanup Z_up)"

text \<open>
  \<open>reports apps r\<close>: with these apps \<^verbatim>\<open>on_exception\<close> returns normally and what it does
  with an exception \<open>ex\<close> is the one effect \<open>r ex\<close>.
\<close>

definition reports :: "app list \<Rightarrow> (exc \<Rightarrow> zeffect) \<Rightarrow> bool" where
  "reports apps r = (\<forall>c ex. on_exception_from c apps 0 ex = (log_effect c (r ex), None))"

text \<open>
  What calling the handlers in order should leave in the trace: each call, followed by
  one report for the exception it raised, if it raised one. \<open>snapshot\<close> is the datapath
  object the handlers are given.
\<close>

fun handler_effects ::
  "(exc \<Rightarrow> zeffect) \<Rightarrow> datapath option \<Rightarrow> handler list \<Rightarrow> nat option \<Rightarrow> zevent \<Rightarrow> zeffect list" where
  "handler_effects r snapshot [] dp ev = []"
| "handler_effects r snapshot (AppHandler i handler_name f # hs) dp ev =
     Called i handler_name dp ev
       # (case call f (HandlerArgs snapshot ev) of None \<Rightarrow> [] | Some ex \<Rightarrow> [r ex])
       @ handler_effects r snapshot hs dp ev"
| "handler_effects r snapshot (DefaultChannelAlert # hs) dp ev =
     DefaultAlertCalled dp ev # LogWarning ''CHANNEL_ALERT'' # handler_effects r snapshot hs dp ev"

text \<open>
  What the cleanup should leave in the trace. For one open datapath: its tasks are
  cancelled, then its handlers are called with the closed datapath and the synthetic
  event. For the controller: this for every open datapath of the connection table, in
  table order, then the cancellation of the controller's tasks and the wait of three
  seconds.
\<close>

definition close_effects :: "(exc \<Rightarrow> zeffect) \<Rightarrow> handler list \<Rightarrow> nat \<Rightarrow> datapath \<Rightarrow> zeffect list" where
  "close_effects r hs dp d =
     map Cancelled (dp_tasks d)
     @ handler_effects r (Some (d\<lparr>dp_closed := True\<rparr>)) hs (Some dp) channel_down_event"

definition open_datapaths :: "zcontroller \<Rightarrow> nat list" where
  "open_datapaths c = filter (\<lambda>dp. \<not> dp_closed (z_heap c dp)) (map snd (z_connections c))"

definition cleanup_effects :: "(exc \<Rightarrow> zeffect) \<Rightarrow> handler list \<Rightarrow> zcontroller \<Rightarrow> zeffect list" where
  "cleanup_effects r hs c =
     concat (map (\<lambda>dp. close_effects r hs dp (z_heap c dp)) (open_datapaths c))
     @ map Cancelled (z_tasks c) @ [WaitCancelled 3]"

text \<open>\<^verbatim>\<open>zof_find_handlers\<close> returns the handlers \<open>hs\<close> (no assertion fails).\<close>

definition finds :: "zcontroller \<Rightarrow> string \<Rightarrow> handler list \<Rightarrow> bool" where
  "finds c event_type hs = (snd (zof_find_handlers c event_type) = Inr hs)"

text \<open>
  The controller with one open datapath that has task 7, and task 5 of its own; and the
  controller of a run that has delivered \<^verbatim>\<open>START\<close> and handled one channel-up.
\<close>

definition Z_busy :: zcontroller where
  "Z_busy = Z_up\<lparr>z_tasks := [5], z_heap := (z_heap Z_up)(0 := (z_heap Z_up 0)\<lparr>dp_tasks := [7]\<rparr>)\<rparr>"

definition Z_started :: zcontroller where
  "Z_started =
     zof_event_loop (fst (zof_invoke_lifecycle (ZController [basic_app]) ''START'')) [channel_up_2]"


section \<open>Properties of the xid counter\<close>

lemma next_xid_step:
  "c_xid c \<noteq> MAX_XID \<Longrightarrow> next_xid c = (c\<lparr>c_xid := c_xid c + 1\<rparr>, c_xid c + 1)"
  by (simp add: next_xid_def)

lemma next_xids_run:
  "c_xid c + int n \<le> MAX_XID \<Longrightarrow>
   next_xids n c = (c\<lparr>c_xid := c_xid c + int n\<rparr>, map (\<lambda>k. c_xid c + 1 + int k) [0..<n])"
proof (induction n arbitrary: c)
  case 0
  then show ?case by simp
next
  case (Suc n)
  let ?c1 = "c\<lparr>c_xid := c_xid c + 1\<rparr>"
  from Suc.prems have ne: "c_xid c \<noteq> MAX_XID" by simp
  from Suc.prems have "c_xid ?c1 + int n \<le> MAX_XID" by simp
  from Suc.IH [OF this]
  have run: "next_xids n ?c1 =
      (c\<lparr>c_xid := c_xid c + 1 + int n\<rparr>, map (\<lambda>k. c_xid c + 1 + 1 + int k) [0..<n])"
    by simp
  have shift: "map (\<lambda>k. c_xid c + 1 + int k) [0..<Suc n] =
      (c_xid c + 1) # map (\<lambda>k. c_xid c + 1 + 1 + int k) [0..<n]"
    unfolding upt_conv_Cons [OF zero_less_Suc] map_Suc_upt [symmetric]
    by (simp add: add.assoc add.left_commute)
  show ?case
    using ne run shift by (simp add: next_xid_step add.assoc)
qed

text \<open>
  Claim C4, as amended. The counter starts at 8092 and is incremented before it is
  returned, so the first xid a fresh controller assigns is 8093; every call on a
  counter below \<open>2^32 - 1\<close> returns the counter plus one; a call on a counter equal
  to \<open>2^32 - 1\<close> returns 8092; and the first \<open>2^32 - 1 - 8092\<close> calls on a fresh
  controller return 8093, 8094, ... without a gap, the call after them returning 8092.
\<close>

theorem C4_next_xid_sequence:
  "snd (next_xid Controller_init) = 8093
   \<and> (\<forall>c. c_xid c \<noteq> 2 ^ 32 - 1 \<longrightarrow>
         snd (next_xid c) = c_xid c + 1 \<and> c_xid (fst (next_xid c)) = c_xid c + 1)
   \<and> (\<forall>c. c_xid c = 2 ^ 32 - 1 \<longrightarrow>
         snd (next_xid c) = 8092 \<and> c_xid (fst (next_xid c)) = 8092)
   \<and> (\<forall>n. int n \<le> 2 ^ 32 - 1 - 8092 \<longrightarrow>
         snd (next_xids n Controller_init) = map (\<lambda>k. 8093 + int k) [0..<n]
         \<and> snd (next_xid (fst (next_xids n Controller_init)))
             = (if int n = 2 ^ 32 - 1 - 8092 then 8092 else 8093 + int n))"
proof (intro conjI allI impI)
  show "snd (next_xid Controller_init) = 8093"
    by (simp add: next_xid_def Controller_init_def MIN_XID_def MAX_XID_def)
next
  fix c :: controller assume "c_xid c \<noteq> 2 ^ 32 - 1"
  then show "snd (next_xid c) = c_xid c + 1" "c_xid (fst (next_xid c)) = c_xid c + 1"
    by (simp_all add: next_xid_def MAX_XID_def)
next
  fix c :: controller assume "c_xid c = 2 ^ 32 - 1"
  then show "snd (next_xid c) = 8092" "c_xid (fst (next_xid c)) = 8092"
    by (simp_all add: next_xid_def MAX_XID_def MIN_XID_def)
next
  fix n assume n: "int n \<le> 2 ^ 32 - 1 - 8092"
  have start: "c_xid Controller_init = 8092"
    by (simp add: Controller_init_def MIN_XID_def)
  from n have "c_xid Controller_init + int n \<le> MAX_XID"
    by (simp add: start MAX_XID_def)
  from next_xids_run [OF this]
  have run: "next_xids n Controller_init =
      (Controller_init\<lparr>c_xid := 8092 + int n\<rparr>, map (\<lambda>k. 8093 + int k) [0..<n])"
    by (simp add: start)
  show "snd (next_xids n Controller_init) = map (\<lambda>k. 8093 + int k) [0..<n]"
    by (simp add: run)
  show "snd (next_xid (fst (next_xids n Controller_init)))
      = (if int n = 2 ^ 32 - 1 - 8092 then 8092 else 8093 + int n)"
    using n by (auto simp add: run next_xid_def MAX_XID_def MIN_XID_def)
qed

theorem C4_next_xid_sequence_witness:
  "snd (next_xid Controller_init) = 8093
   \<and> snd (next_xid (Controller_init\<lparr>c_xid := 9000\<rparr>)) = 9001
   \<and> snd (next_xid (Controller_init\<lparr>c_xid := 2 ^ 32 - 1\<rparr>)) = 8092
   \<and> snd (next_xids 3 Controller_init) = [8093, 8094, 8095]
   \<and> snd (next_xid (fst (next_xids 3 Controller_init))) = 8096"
proof -
  have step: "snd (next_xid (Controller_init\<lparr>c_xid := 9000\<rparr>)) = 9001"
    using C4_next_xid_sequence by simp
  have wrap: "snd (next_xid (Controller_init\<lparr>c_xid := 2 ^ 32 - 1\<rparr>)) = 8092"
    using C4_next_xid_sequence by simp
  have "int 3 \<le> 2 ^ 32 - 1 - 8092" by simp
  with C4_next_xid_sequence
  have "snd (next_xids 3 Controller_init) = map (\<lambda>k. 8093 + int k) [0..<3]
      \<and> snd (next_xid (fst (next_xids 3 Controller_init)))
          = (if int 3 = 2 ^ 32 - 1 - 8092 then 8092 else 8093 + int 3)"
    by blast
  then have run: "snd (next_xids 3 Controller_init) = [8093, 8094, 8095]
      \<and> snd (next_xid (fst (next_xids 3 Controller_init))) = 8096"
    by (simp add: upt_rec)
  from C4_next_xid_sequence step wrap run show ?thesis by blast
qed

text \<open>
  The claim as the specification states it fails on a fresh controller: the first xid
  assigned is not 8092.
\<close>

theorem C4_first_xid_counterexample:
  "snd (next_xid Controller_init) \<noteq> 8092"
  by (simp add: next_xid_def Controller_init_def MIN_XID_def MAX_XID_def)

section \<open>Phase changes and task cancellation\<close>

lemma cancel_tasks_trace:
  "c_trace (cancel_tasks c k) =
     c_trace c @ map TaskCancel
       ((if k = ''START'' \<or> k = ''STOP'' then all_tasks c else []) @ scope_tasks c k)"
  by (simp add: cancel_tasks_def cancel_each_def scope_tasks_def all_tasks_def Let_def
      split: option.splits)

lemma cancel_tasks_frame:
  "c_event_queue (cancel_tasks c k) = c_event_queue c"
  "c_phase (cancel_tasks c k) = c_phase c"
  "c_tasks (cancel_tasks c k) = c_tasks c"
  by (simp_all add: cancel_tasks_def cancel_each_def Let_def split: option.splits)

lemma set_phase_trace:
  "c_trace (set_phase c p) =
     (if c_phase c \<noteq> ''PRESTART'' then c_trace (cancel_tasks c (c_phase c)) else c_trace c)
       @ phase_event_put c p"
  by (simp add: set_phase_def post_event_def phase_event_put_def Let_def cancel_tasks_frame
      split: option.splits)

lemma set_phase_phase: "c_phase (set_phase c p) = p"
  by (simp add: set_phase_def post_event_def Let_def split: option.splits)

lemma Controller_prestart_simps:
  "c_event_queue Controller_prestart = Some [make_event ''PRESTART'']"
  "c_phase Controller_prestart = ''PRESTART''"
  "c_trace Controller_prestart = [QueuePut (make_event ''PRESTART'')]"
  "c_tasks Controller_prestart = []"
  "c_xid Controller_prestart = 8092"
  "c_reqs Controller_prestart = []"
  "c_next_ref Controller_prestart = 0"
  by (simp_all add: Controller_prestart_def Controller_init_def set_phase_def cancel_tasks_def
      post_event_def Let_def MIN_XID_def)

text \<open>
  Claim C3, as amended. \<^verbatim>\<open>_set_phase\<close> tests the phase it leaves, not the phase it
  enters. On every transition out of a phase other than \<^verbatim>\<open>PRESTART\<close> (so on
  \<^verbatim>\<open>INIT\<close> to \<^verbatim>\<open>PRESTART\<close>, \<^verbatim>\<open>START\<close> to \<^verbatim>\<open>STOP\<close> and \<^verbatim>\<open>STOP\<close> to \<^verbatim>\<open>POSTSTOP\<close>) the tasks
  scoped to the previous phase are cancelled (all tasks, when that phase is \<^verbatim>\<open>START\<close>
  or \<^verbatim>\<open>STOP\<close>), and the cancellations come before the event of the new phase is posted.
  On a transition out of \<^verbatim>\<open>PRESTART\<close> no task is cancelled. In both cases the new phase
  is recorded.
\<close>

theorem C3_set_phase_cancels_previous_scope:
  "(c_phase c \<noteq> ''PRESTART'' \<longrightarrow>
      c_trace (set_phase c p) =
        c_trace c
        @ map TaskCancel
            ((if c_phase c = ''START'' \<or> c_phase c = ''STOP'' then all_tasks c else [])
             @ scope_tasks c (c_phase c))
        @ phase_event_put c p)
   \<and> (c_phase c = ''PRESTART'' \<longrightarrow> c_trace (set_phase c p) = c_trace c @ phase_event_put c p)
   \<and> c_phase (set_phase c p) = p"
  by (simp add: set_phase_trace cancel_tasks_trace set_phase_phase)

theorem C3_set_phase_cancels_previous_scope_witness:
  "c_trace (set_phase (Controller_prestart\<lparr>c_phase := ''START'', c_tasks := [(''START'', [1]), (''dp'', [2])]\<rparr>) ''STOP'')
     = [QueuePut (make_event ''PRESTART''), TaskCancel 1, TaskCancel 2, TaskCancel 1,
        QueuePut (make_event ''STOP'')]
   \<and> c_trace (set_phase (Controller_prestart\<lparr>c_tasks := [(''PRESTART'', [7])]\<rparr>) ''START'')
     = [QueuePut (make_event ''PRESTART''), QueuePut (make_event ''START'')]"
proof -
  let ?a = "Controller_prestart\<lparr>c_phase := ''START'', c_tasks := [(''START'', [1]), (''dp'', [2])]\<rparr>"
  let ?b = "Controller_prestart\<lparr>c_tasks := [(''PRESTART'', [7])]\<rparr>"
  have a: "c_phase ?a \<noteq> ''PRESTART''" by simp
  have b: "c_phase ?b = ''PRESTART''" by (simp add: Controller_prestart_simps)
  from C3_set_phase_cancels_previous_scope [of ?a "''STOP''"] a
  have 1: "c_trace (set_phase ?a ''STOP'') =
      [QueuePut (make_event ''PRESTART''), TaskCancel 1, TaskCancel 2, TaskCancel 1,
       QueuePut (make_event ''STOP'')]"
    by (simp add: Controller_prestart_simps all_tasks_def scope_tasks_def phase_event_put_def)
  from C3_set_phase_cancels_previous_scope [of ?b "''START''"] b
  have 2: "c_trace (set_phase ?b ''START'') =
      [QueuePut (make_event ''PRESTART''), QueuePut (make_event ''START'')]"
    by (simp add: Controller_prestart_simps phase_event_put_def)
  from 1 2 show ?thesis by simp
qed

text \<open>
  The claim as the specification states it fails on the transition from \<^verbatim>\<open>PRESTART\<close>
  to \<^verbatim>\<open>START\<close>: task 7, scoped to \<^verbatim>\<open>PRESTART\<close>, is not cancelled.
\<close>

theorem C3_prestart_tasks_survive_counterexample:
  "c_phase (Controller_prestart\<lparr>c_tasks := [(''PRESTART'', [7])]\<rparr>) = ''PRESTART''
   \<and> 7 \<in> set (scope_tasks (Controller_prestart\<lparr>c_tasks := [(''PRESTART'', [7])]\<rparr>) ''PRESTART'')
   \<and> c_phase (set_phase (Controller_prestart\<lparr>c_tasks := [(''PRESTART'', [7])]\<rparr>) ''START'') = ''START''
   \<and> TaskCancel 7 \<notin> set (c_trace (set_phase (Controller_prestart\<lparr>c_tasks := [(''PRESTART'', [7])]\<rparr>) ''START''))"
  by (simp add: Controller_prestart_simps set_phase_trace set_phase_phase scope_tasks_def
      phase_event_put_def)


section \<open>The start sequence\<close>

lemma start_except_controller_exception:
  "c_event_queue c = Some q \<Longrightarrow> is_ControllerException ex \<Longrightarrow>
   start_except c ex =
     (c\<lparr>c_event_queue := Some (q @ [make_event ''STARTFAIL'', make_event ''EXIT'']),
        c_trace := c_trace c @ [QueuePut (make_event ''STARTFAIL''), QueuePut (make_event ''EXIT'')]\<rparr>,
      None)"
  by (simp add: start_except_def post_event_def)

lemma next_xid_frame:
  "c_event_queue (fst (next_xid c)) = c_event_queue c"
  "c_trace (fst (next_xid c)) = c_trace c"
  "c_phase (fst (next_xid c)) = c_phase c"
  by (simp_all add: next_xid_def)

lemma listen_on_endpoints_frame:
  "listen_on_endpoints c eps b = (c', r) \<Longrightarrow>
   c_event_queue c' = c_event_queue c \<and> c_trace c' = c_trace c \<and> c_phase c' = c_phase c"
proof (induction eps arbitrary: c)
  case Nil
  then show ?case by simp
next
  case (Cons e eps)
  show ?case
  proof (cases "on_listen b e")
    case (Inl ex)
    with Cons.prems show ?thesis by (auto simp: rpc_call_await_def next_xid_frame)
  next
    case (Inr conn_id)
    with Cons.prems have "listen_on_endpoints (fst (next_xid c)) eps b = (c', r)"
      by (simp add: rpc_call_await_def)
    from Cons.IH [OF this] show ?thesis by (simp add: next_xid_frame)
  qed
qed

lemma listen_on_endpoints_raises:
  "e \<in> set eps \<Longrightarrow> on_listen b e = Inl ex \<Longrightarrow>
   \<exists>ex'. snd (listen_on_endpoints c eps b) = Some ex' \<and> (\<exists>e' \<in> set eps. on_listen b e' = Inl ex')"
proof (induction eps arbitrary: c)
  case Nil
  then show ?case by simp
next
  case (Cons a eps)
  show ?case
  proof (cases "on_listen b a")
    case (Inl ex1)
    then show ?thesis by (auto simp: rpc_call_await_def)
  next
    case (Inr conn_id)
    with Cons.prems have "e \<in> set eps" by auto
    from Cons.IH [OF this Cons.prems(2)] Inr show ?thesis
      by (auto simp: rpc_call_await_def)
  qed
qed

text \<open>
  The sibling paths: a controller exception from the description request, from the TLS
  identity request or from a listen request ends in \<^verbatim>\<open>STARTFAIL\<close> and \<^verbatim>\<open>EXIT\<close> on the
  queue, and \<^verbatim>\<open>_start\<close> returns normally without changing the phase.
\<close>

lemma start_description_failure_posts:
  assumes "c_event_queue c = Some q" "on_description b = Inl ex" "is_ControllerException ex"
  shows "snd (start c eps sec b) = None
    \<and> c_event_queue (fst (start c eps sec b)) = Some (q @ [make_event ''STARTFAIL'', make_event ''EXIT''])
    \<and> c_phase (fst (start c eps sec b)) = c_phase c"
  using assms
  by (simp add: start_def get_description_def rpc_call_await_def
      start_except_controller_exception [where q = q] next_xid_frame)

lemma start_tls_failure_posts:
  assumes "c_event_queue c = Some q" "on_description b = Inr d" "\<not> major_version d > API_VERSION"
    "map_of sec ''cert'' = Some cert" "map_of sec ''cafile'' = Some ca"
    "on_add_identity b = Inl ex" "is_ControllerException ex"
  shows "snd (start c eps sec b) = None
    \<and> c_event_queue (fst (start c eps sec b)) = Some (q @ [make_event ''STARTFAIL'', make_event ''EXIT''])
    \<and> c_phase (fst (start c eps sec b)) = c_phase c"
proof -
  from assms(4) have ne: "sec \<noteq> []" by auto
  show ?thesis
    using assms ne
    by (simp add: start_def get_description_def configure_tls_def rpc_call_await_def
        start_except_controller_exception [where q = q] next_xid_frame)
qed

lemma start_listen_failure_posts:
  assumes "c_event_queue c = Some q" "on_description b = Inr d" "\<not> major_version d > API_VERSION"
    "e \<in> set eps" "on_listen b e = Inl ex"
    "\<forall>e' ex'. on_listen b e' = Inl ex' \<longrightarrow> is_ControllerException ex'"
  shows "snd (start c eps [] b) = None
    \<and> c_event_queue (fst (start c eps [] b)) = Some (q @ [make_event ''STARTFAIL'', make_event ''EXIT''])
    \<and> c_phase (fst (start c eps [] b)) = c_phase c"
proof -
  let ?c1 = "(fst (next_xid c))\<lparr>c_ofp_versions := ofp_versions d\<rparr>"
  obtain c3 r where l: "listen_on_endpoints ?c1 eps b = (c3, r)"
    by (cases "listen_on_endpoints ?c1 eps b")
  from listen_on_endpoints_raises [OF assms(4,5), of ?c1] l assms(6)
  obtain ex' where r: "r = Some ex'" and ce: "is_ControllerException ex'" by auto
  from listen_on_endpoints_frame [OF l] assms(1)
  have fr: "c_event_queue c3 = Some q" "c_phase c3 = c_phase c" by (simp_all add: next_xid_frame)
  from assms(4) have ne: "eps \<noteq> []" by auto
  show ?thesis
    using assms(2,3) ne l r
    by (simp add: start_def get_description_def rpc_call_await_def
        start_except_controller_exception [OF fr(1) ce] fr)
qed

text \<open>
  Claim C1 at the input where the code departs from it. When the backend's description
  reports a major API version above the supported one, \<^verbatim>\<open>_get_description\<close> raises
  \<^verbatim>\<open>ValueError\<close>, which is not a \<^verbatim>\<open>ControllerException\<close>: the exception leaves \<^verbatim>\<open>_start\<close>,
  start is aborted (the phase stays as it was), and neither \<^verbatim>\<open>STARTFAIL\<close> nor \<^verbatim>\<open>EXIT\<close> is
  posted: the queue and the trace of posts are unchanged.
\<close>

theorem C1_unsupported_api_version_posts_nothing:
  "on_description b = Inr d \<Longrightarrow> major_version d > API_VERSION \<Longrightarrow>
   start c listen_endpoints security b
     = (fst (next_xid c), Some (ValueError ''Unsupported API version''))
   \<and> c_event_queue (fst (start c listen_endpoints security b)) = c_event_queue c
   \<and> c_trace (fst (start c listen_endpoints security b)) = c_trace c
   \<and> c_phase (fst (start c listen_endpoints security b)) = c_phase c"
  by (simp add: start_def get_description_def rpc_call_await_def start_except_def next_xid_frame)

theorem C1_unsupported_api_version_posts_nothing_witness:
  "c_event_queue Controller_prestart = Some [make_event ''PRESTART'']
   \<and> snd (start Controller_prestart [''6653''] [] backend_v2)
       = Some (ValueError ''Unsupported API version'')
   \<and> c_event_queue (fst (start Controller_prestart [''6653''] [] backend_v2))
       = Some [make_event ''PRESTART'']
   \<and> c_phase (fst (start Controller_prestart [''6653''] [] backend_v2)) = ''PRESTART''"
proof -
  have d: "on_description backend_v2 =
      Inr \<lparr>major_version = 2, minor_version = 0, ofp_versions = [1, 4], software_version = ''0.1''\<rparr>"
    by (simp add: backend_v2_def)
  have v: "major_version
      \<lparr>major_version = 2, minor_version = 0, ofp_versions = [1, 4], software_version = ''0.1''\<rparr>
      > API_VERSION"
    by (simp add: API_VERSION_def)
  from C1_unsupported_api_version_posts_nothing [OF d v, of Controller_prestart "[''6653'']" "[]"]
  show ?thesis by (simp add: next_xid_frame Controller_prestart_simps)
qed


section \<open>The request table and the timeout sweeper\<close>

lemma set_item_done [simp]: "rf_done (set_item h x) = rf_done h"
  by (simp add: set_item_def split: option.splits)

lemma idle_loop_done: "rf_done (c_heap (idle_loop c tos) fut) = rf_done (c_heap c fut)"
  by (induction c tos rule: idle_loop.induct) (simp_all add: set_exception_def)

lemma idle_loop_reqs:
  "c_reqs (idle_loop c tos) = filter (\<lambda>(x, v). x \<notin> set (map fst tos)) (c_reqs c)"
proof (induction c tos rule: idle_loop.induct)
  case (1 c)
  then show ?case by simp
next
  case (2 c x fut rest)
  have "filter (\<lambda>p. x \<noteq> fst p \<and> fst p \<notin> fst ` set rest) (c_reqs c)
      = filter (\<lambda>p. fst p \<noteq> x \<and> fst p \<notin> fst ` set rest) (c_reqs c)"
    by (rule filter_cong) auto
  with 2 show ?case by (simp add: AList.delete_eq case_prod_unfold)
qed

lemma timed_out_keys:
  "(x, fut, expiration) \<in> set (c_reqs c) \<Longrightarrow> expiration \<le> now \<Longrightarrow>
   x \<in> set (map fst (timed_out c now))"
  by (force simp: timed_out_def)

lemma Controller_registered_simps:
  "c_reqs Controller_registered = [(8093, 0, 10)]"
  "c_heap Controller_registered 0 = ReplyFuture 8093"
  by (simp_all add: Controller_registered_def rpc_call_def next_xid_def write_event_def
      Controller_prestart_simps MAX_XID_def XID_TIMEOUT_def Let_def)

text \<open>
  The sibling path: a terminal delivery through \<^verbatim>\<open>_handle_xid\<close> (a result without
  \<^verbatim>\<open>MORE\<close>, or an error) removes the xid and marks the handle done, so the invariant
  survives it.
\<close>

lemma handle_xid_terminal_marks_done:
  assumes reg: "map_of (c_reqs c) x = Some (fut, expiration)"
    and only: "\<forall>(x', f, e) \<in> set (c_reqs c). f = fut \<longrightarrow> x' = x"
    and consistent: "handle_consistent c fut"
    and terminal: "\<not> event_has_more ev \<or> cls \<noteq> None"
  shows "snd (handle_xid c ev x cls) = Inr True
    \<and> \<not> in_table (fst (handle_xid c ev x cls)) fut
    \<and> rf_done (c_heap (fst (handle_xid c ev x cls)) fut)
    \<and> handle_consistent (fst (handle_xid c ev x cls)) fut"
proof -
  from reg have mem: "(x, fut, expiration) \<in> set (c_reqs c)" by (rule map_of_SomeD)
  then have "in_table c fut" by (force simp: in_table_def)
  with consistent have undone: "\<not> rf_done (c_heap c fut)" by (simp add: handle_consistent_def)
  have out: "\<not> in_table (c\<lparr>c_reqs := AList.delete x (c_reqs c)\<rparr>) fut"
    using only by (auto simp: in_table_def AList.delete_eq)
  show ?thesis
    using reg undone terminal out
    by (auto simp: handle_xid_def Let_def set_done_def set_result_def set_exception_def
        handle_consistent_def in_table_def split: option.splits)
qed

text \<open>
  Claim C2 at the inputs where the code departs from it. Take a handle that is
  registered under xid \<open>x\<close> only, satisfies the invariant (so it is in the table and
  not marked done), and has expired. After \<^verbatim>\<open>_idle\<close> the handle is out of the table and
  still not marked done: the sweeper deletes the entry without calling \<^verbatim>\<open>set_done\<close>, and
  the invariant is broken.
\<close>

theorem C2_sweeper_removes_without_marking_done:
  assumes reg: "map_of (c_reqs c) x = Some (fut, expiration)"
    and expired: "expiration \<le> now"
    and only: "\<forall>(x', f, e) \<in> set (c_reqs c). f = fut \<longrightarrow> x' = x"
    and consistent: "handle_consistent c fut"
  shows "\<not> in_table (idle c now) fut
    \<and> \<not> rf_done (c_heap (idle c now) fut)
    \<and> \<not> handle_consistent (idle c now) fut"
proof -
  from reg have mem: "(x, fut, expiration) \<in> set (c_reqs c)" by (rule map_of_SomeD)
  then have "in_table c fut" by (force simp: in_table_def)
  with consistent have undone: "\<not> rf_done (c_heap c fut)" by (simp add: handle_consistent_def)
  have key: "x \<in> set (map fst (timed_out c now))" using mem expired by (rule timed_out_keys)
  have out: "\<not> in_table (idle c now) fut"
    using only key by (auto simp: in_table_def idle_def idle_loop_reqs)
  have still: "\<not> rf_done (c_heap (idle c now) fut)"
    using undone by (simp add: idle_def idle_loop_done)
  from out still show ?thesis by (simp add: handle_consistent_def)
qed

theorem C2_sweeper_removes_without_marking_done_witness:
  "handle_consistent Controller_registered 0
   \<and> \<not> in_table (idle Controller_registered 10) 0
   \<and> \<not> rf_done (c_heap (idle Controller_registered 10) 0)
   \<and> \<not> handle_consistent (idle Controller_registered 10) 0"
proof -
  have reg: "map_of (c_reqs Controller_registered) 8093 = Some (0, 10)"
    by (simp add: Controller_registered_simps)
  have only: "\<forall>(x', f, e) \<in> set (c_reqs Controller_registered). f = 0 \<longrightarrow> x' = 8093"
    by (simp add: Controller_registered_simps)
  have consistent: "handle_consistent Controller_registered 0"
    by (simp add: handle_consistent_def in_table_def Controller_registered_simps ReplyFuture_def)
  have expired: "(10::real) \<le> 10" by simp
  from C2_sweeper_removes_without_marking_done [OF reg expired only consistent] consistent
  show ?thesis by simp
qed

lemma Controller_timed_out_heap:
  "c_heap Controller_timed_out 0
     = (ReplyFuture 8093)\<lparr>rf_results := [Exn (TimeoutException 8093)]\<rparr>"
  by (simp add: Controller_timed_out_def idle_def timed_out_def Controller_registered_simps
      set_exception_def set_item_def ReplyFuture_def)

lemma Controller_failed_heap:
  "c_heap Controller_failed 0
     = (ReplyFuture 8093)\<lparr>rf_results := [Exn (RPCException error_reply)], rf_done := True\<rparr>"
  by (simp add: Controller_failed_def handle_xid_def Controller_registered_simps
      set_exception_def set_item_def ReplyFuture_def set_done_def Let_def)

text \<open>
  Claim C5 at the input where the code departs from it: the request of
  \<open>Controller_registered\<close>, timed out by the sweeper on one side and failed by an error
  reply on the other. In both cases the first await raises the terminal exception.
  After it the failed handle reports done and a further await raises
  \<^verbatim>\<open>InvalidStateError\<close>; the timed-out handle does not report done and a further await
  suspends on a new future that nothing will resolve.
\<close>

theorem C5_timeout_differs_from_error:
  "snd (await_at Controller_timed_out 0) = Raised (TimeoutException 8093)
   \<and> snd (await_at Controller_failed 0) = Raised (RPCException error_reply)
   \<and> \<not> rf_is_done (c_heap (fst (await_at Controller_timed_out 0)) 0)
   \<and> rf_is_done (c_heap (fst (await_at Controller_failed 0)) 0)
   \<and> snd (await_at (fst (await_at Controller_timed_out 0)) 0) = Suspended
   \<and> snd (await_at (fst (await_at Controller_failed 0)) 0) = Raised InvalidStateError"
  by (simp add: await_at_def rf_await_def Controller_timed_out_heap Controller_failed_heap
      ReplyFuture_def rf_is_done_def)


section \<open>Awaiting and iterating a reply future\<close>




lemma set_item_future [simp]: "rf_future (set_item h x) = None"
  by (simp add: set_item_def split: option.splits)






























lemma map_Reply_eq [simp]: "map Reply ys = map Reply ds \<longleftrightarrow> ys = ds"
  by (simp add: inj_map_eq_map inj_def)










section \<open>The dispatcher: bookkeeping of channel-down\<close>

lemma handler_names:
  "handler_name_of ''CHANNEL_DOWN'' = ''on_channel_down''"
  "handler_name_of ''CHANNEL_UP'' = ''on_channel_up''"
  "handler_name_of ''START'' = ''on_start''"
  "handler_name_of ''STOP'' = ''on_stop''"
  by code_simp+

lemma int16_dpid: "int16 ''0000000000000001'' = Inr 1"
  by code_simp

lemmas scenario_defs =
  loop_body_def zof_channel_up_def zof_channel_down_def channel_up_2_def channel_down_2_def
  ZController_def int16_dpid Let_def zof_dispatch_event_def zof_find_handlers_def handler_names
  basic_app_def invoke_def log_effect_def quiet_def zof_cancel_tasks_def

lemma Z_up_simps:
  "z_connections Z_up = [(2, 0)]"
  "z_dpids Z_up = [(1, 0)]"
  "z_heap Z_up 0 = \<lparr>dp_id = 1, dp_conn_id = 2, dp_closed = False, dp_tasks = []\<rparr>"
  "z_trace Z_up = [Called 0 ''on_channel_up'' (Some 0) channel_up_2]"
  "z_apps Z_up = [basic_app]"
  "z_tasks Z_up = []"
  by (simp_all add: Z_up_def scenario_defs)

lemma Z_closed_simps:
  "z_connections Z_closed = [(2, 0)]"
  "z_dpids Z_closed = [(1, 0)]"
  "z_heap Z_closed 0 = \<lparr>dp_id = 1, dp_conn_id = 2, dp_closed = True, dp_tasks = []\<rparr>"
  "z_trace Z_closed =
     [Called 0 ''on_channel_up'' (Some 0) channel_up_2,
      Called 0 ''on_channel_down'' (Some 0) channel_down_event,
      WaitCancelled 3]"
  by (simp_all add: Z_closed_def zof_cleanup_def Z_up_def scenario_defs)

text \<open>
  Claim C8. A \<^verbatim>\<open>CHANNEL_DOWN\<close> whose \<^verbatim>\<open>conn_id\<close> is not in the connection table makes
  the unguarded \<^verbatim>\<open>pop\<close> raise \<^verbatim>\<open>KeyError\<close> before anything is changed; the round of the
  loop ends in the exception without a dispatch; the loop logs it (the only effect
  added) and goes on with the remaining events.
\<close>

theorem C8_unknown_conn_channel_down_logged:
  assumes "z_type ev = ''CHANNEL_DOWN''" "z_conn_id ev = Some conn_id"
    "map_of (z_connections c) conn_id = None"
  shows "zof_channel_down c ev = (c, Inl (KeyError ''conn_id''))
    \<and> loop_body c ev = (c, Some (KeyError ''conn_id''))
    \<and> zof_event_loop c (ev # evs) =
        zof_event_loop
          (c\<lparr>z_trace := z_trace c @ [LogCritical ''Exception in zof_event_loop'' (KeyError ''conn_id'')]\<rparr>)
          evs"
  using assms by (simp add: zof_channel_down_def loop_body_def log_effect_def)

theorem C8_unknown_conn_channel_down_logged_witness:
  "loop_body (ZController [basic_app]) channel_down_2
      = (ZController [basic_app], Some (KeyError ''conn_id''))
   \<and> z_trace (zof_event_loop (ZController [basic_app]) [channel_down_2, channel_up_2]) =
      [LogCritical ''Exception in zof_event_loop'' (KeyError ''conn_id''),
       Called 0 ''on_channel_up'' (Some 0) channel_up_2]"
proof -
  have t: "z_type channel_down_2 = ''CHANNEL_DOWN''" and k: "z_conn_id channel_down_2 = Some 2"
    by (simp_all add: channel_down_2_def)
  have n: "map_of (z_connections (ZController [basic_app])) 2 = None"
    by (simp add: ZController_def)
  from C8_unknown_conn_channel_down_logged [OF t k n, of "[channel_up_2]"]
  show ?thesis by (simp add: scenario_defs)
qed

text \<open>
  Claim C7. Let the datapath of connection \<open>conn_id\<close> be in both indexes with its
  \<^verbatim>\<open>closed\<close> flag set. The round of the loop for the backend's \<^verbatim>\<open>CHANNEL_DOWN\<close> removes it
  from both indexes and cancels its tasks, and these cancellations are all it adds to
  the trace: no handler is called. So every app has seen as many channel-downs for the
  datapath after the event as before it (one stays one), and the loop goes on.
\<close>

theorem C7_closed_datapath_channel_down_not_dispatched:
  assumes "z_type ev = ''CHANNEL_DOWN''" "z_conn_id ev = Some conn_id"
    "map_of (z_connections c) conn_id = Some dp" "dp_closed (z_heap c dp)"
    "map_of (z_dpids c) (dp_id (z_heap c dp)) = Some dp'"
  shows "loop_body c ev =
      (c\<lparr>z_connections := AList.delete conn_id (z_connections c),
         z_dpids := AList.delete (dp_id (z_heap c dp)) (z_dpids c),
         z_trace := z_trace c @ map Cancelled (dp_tasks (z_heap c dp))\<rparr>, None)
    \<and> map_of (z_connections (fst (loop_body c ev))) conn_id = None
    \<and> map_of (z_dpids (fst (loop_body c ev))) (dp_id (z_heap c dp)) = None
    \<and> channel_downs_seen (fst (loop_body c ev)) i dp = channel_downs_seen c i dp
    \<and> zof_event_loop c (ev # evs) = zof_event_loop (fst (loop_body c ev)) evs"
proof -
  have body: "loop_body c ev =
      (c\<lparr>z_connections := AList.delete conn_id (z_connections c),
         z_dpids := AList.delete (dp_id (z_heap c dp)) (z_dpids c),
         z_trace := z_trace c @ map Cancelled (dp_tasks (z_heap c dp))\<rparr>, None)"
    using assms by (simp add: loop_body_def zof_channel_down_def zof_cancel_tasks_def Let_def)
  have none: "filter (\<lambda>e. case e of Called j handler_name d ev \<Rightarrow> j = i \<and> handler_name = ''on_channel_down'' \<and> d = Some dp | _ \<Rightarrow> False)
      (map Cancelled ts) = []" for ts
    by (induction ts) simp_all
  show ?thesis
    by (simp add: body delete_conv' channel_downs_seen_def none)
qed

theorem C7_closed_datapath_channel_down_not_dispatched_witness:
  "channel_downs_seen Z_closed 0 0 = 1
   \<and> channel_downs_seen (fst (loop_body Z_closed channel_down_2)) 0 0 = 1
   \<and> z_connections (fst (loop_body Z_closed channel_down_2)) = []
   \<and> z_dpids (fst (loop_body Z_closed channel_down_2)) = []
   \<and> z_trace (fst (loop_body Z_closed channel_down_2)) = z_trace Z_closed"
proof -
  have t: "z_type channel_down_2 = ''CHANNEL_DOWN''" and k: "z_conn_id channel_down_2 = Some 2"
    by (simp_all add: channel_down_2_def)
  have r: "map_of (z_connections Z_closed) 2 = Some 0" by (simp add: Z_closed_simps)
  have cl: "dp_closed (z_heap Z_closed 0)" by (simp add: Z_closed_simps)
  have d: "map_of (z_dpids Z_closed) (dp_id (z_heap Z_closed 0)) = Some 0" by (simp add: Z_closed_simps)
  have seen: "channel_downs_seen Z_closed 0 0 = 1"
    by (simp add: channel_downs_seen_def Z_closed_simps)
  note th = C7_closed_datapath_channel_down_not_dispatched [OF t k r cl d, of 0 "[]"]
  from th have same: "channel_downs_seen (fst (loop_body Z_closed channel_down_2)) 0 0
      = channel_downs_seen Z_closed 0 0"
    by blast
  from th [THEN conjunct1]
  have body: "fst (loop_body Z_closed channel_down_2)
      = Z_closed\<lparr>z_connections := [], z_dpids := [], z_trace := z_trace Z_closed\<rparr>"
    by (simp add: Z_closed_simps)
  from same seen body show ?thesis by simp
qed


section \<open>The dispatcher: exceptions of handlers\<close>

lemma on_exception_from_none:
  "\<forall>a \<in> set apps. map_of a ''on_exception'' = None \<Longrightarrow>
   on_exception_from c apps i ex = (log_effect c (LogCritical ''Exception in zof handler'' ex), None)"
  by (induction apps arbitrary: i) simp_all

lemma on_exception_from_first:
  "\<forall>a \<in> set pre. map_of a ''on_exception'' = None \<Longrightarrow>
   map_of a ''on_exception'' = Some f \<Longrightarrow> \<not> is_coroutine f \<Longrightarrow>
   on_exception_from c (pre @ a # post) i ex =
     (log_effect c (ExceptionCalled (i + length pre) ex), call f (ExceptionArgs ex))"
  by (induction pre arbitrary: i) simp_all

lemma reports_none:
  "\<forall>a \<in> set apps. map_of a ''on_exception'' = None \<Longrightarrow>
   reports apps (LogCritical ''Exception in zof handler'')"
  by (simp add: reports_def on_exception_from_none)

lemma reports_first:
  assumes "i < length apps" "map_of (apps ! i) ''on_exception'' = Some f" "\<not> is_coroutine f"
    "\<forall>j < i. map_of (apps ! j) ''on_exception'' = None" "\<forall>ex. call f (ExceptionArgs ex) = None"
  shows "reports apps (ExceptionCalled i)"
proof -
  let ?pre = "take i apps" and ?post = "drop (Suc i) apps"
  from assms have split: "apps = ?pre @ (apps ! i) # ?post"
    by (simp add: id_take_nth_drop)
  from assms have pre: "\<forall>a \<in> set ?pre. map_of a ''on_exception'' = None"
    by (auto simp: in_set_conv_nth)
  from assms have len: "length ?pre = i" by simp
  have "on_exception_from c (?pre @ (apps ! i) # ?post) 0 ex =
      (log_effect c (ExceptionCalled (0 + length ?pre) ex), call f (ExceptionArgs ex))" for c ex
    using pre assms by (intro on_exception_from_first) simp_all
  with split len assms(5) show ?thesis
    by (simp add: reports_def)
qed

lemma run_handlers_effects:
  "reports (z_apps c) r \<Longrightarrow>
   run_handlers c hs dp ev =
     (c\<lparr>z_trace := z_trace c @ handler_effects r (map_option (z_heap c) dp) hs dp ev\<rparr>, None)"
proof (induction hs arbitrary: c)
  case Nil
  then show ?case by simp
next
  case (Cons h hs)
  show ?case
  proof (cases h)
    case (AppHandler i n f)
    let ?c1 = "log_effect c (Called i n dp ev)"
    show ?thesis
    proof (cases "call f (HandlerArgs (map_option (z_heap c) dp) ev)")
      case None
      have "reports (z_apps ?c1) r" using Cons.prems by (simp add: log_effect_def)
      from Cons.IH [OF this] None AppHandler show ?thesis
        by (simp add: invoke_def log_effect_def)
    next
      case (Some ex)
      let ?c2 = "log_effect ?c1 (r ex)"
      have oe: "on_exception ?c1 ex = (?c2, None)"
        using Cons.prems by (simp add: on_exception_def reports_def log_effect_def)
      have "reports (z_apps ?c2) r" using Cons.prems by (simp add: log_effect_def)
      from Cons.IH [OF this] Some AppHandler oe show ?thesis
        by (simp add: invoke_def log_effect_def)
    qed
  next
    case DefaultChannelAlert
    let ?c1 = "log_effect (log_effect c (DefaultAlertCalled dp ev)) (LogWarning ''CHANNEL_ALERT'')"
    have "reports (z_apps ?c1) r" using Cons.prems by (simp add: log_effect_def)
    from Cons.IH [OF this] DefaultChannelAlert show ?thesis
      by (simp add: invoke_def log_effect_def)
  qed
qed

text \<open>
  Claim C9. If no app defines \<^verbatim>\<open>on_exception\<close>, an exception is logged and nothing
  else happens. If the app at index \<open>i\<close> is the first that defines it, that method
  alone is called, once, with the exception. In \<^verbatim>\<open>zof_dispatch_event\<close> every handler
  is called in order and each exception a handler raises is followed by exactly one
  such report before the next handler runs (the second case for an \<^verbatim>\<open>on_exception\<close>
  method that returns normally; one that raises ends the dispatch).
\<close>

theorem C9_on_exception_first_app_only:
  "((\<forall>a \<in> set (z_apps c). map_of a ''on_exception'' = None) \<longrightarrow>
      on_exception c ex = (c\<lparr>z_trace := z_trace c @ [LogCritical ''Exception in zof handler'' ex]\<rparr>, None)
      \<and> run_handlers c hs dp ev =
          (c\<lparr>z_trace := z_trace c
               @ handler_effects (LogCritical ''Exception in zof handler'') (map_option (z_heap c) dp) hs dp ev\<rparr>,
           None))
   \<and> (i < length (z_apps c) \<and> map_of (z_apps c ! i) ''on_exception'' = Some f \<and> \<not> is_coroutine f
        \<and> (\<forall>j < i. map_of (z_apps c ! j) ''on_exception'' = None) \<longrightarrow>
      on_exception c ex = (c\<lparr>z_trace := z_trace c @ [ExceptionCalled i ex]\<rparr>, call f (ExceptionArgs ex))
      \<and> ((\<forall>ex'. call f (ExceptionArgs ex') = None) \<longrightarrow>
           run_handlers c hs dp ev =
             (c\<lparr>z_trace := z_trace c
                  @ handler_effects (ExceptionCalled i) (map_option (z_heap c) dp) hs dp ev\<rparr>,
              None)))"
proof (intro conjI impI)
  assume h: "\<forall>a \<in> set (z_apps c). map_of a ''on_exception'' = None"
  then show "on_exception c ex = (c\<lparr>z_trace := z_trace c @ [LogCritical ''Exception in zof handler'' ex]\<rparr>, None)"
    by (simp add: on_exception_def on_exception_from_none log_effect_def)
  from h show "run_handlers c hs dp ev =
          (c\<lparr>z_trace := z_trace c
               @ handler_effects (LogCritical ''Exception in zof handler'') (map_option (z_heap c) dp) hs dp ev\<rparr>,
           None)"
    by (intro run_handlers_effects reports_none)
next
  assume h: "i < length (z_apps c) \<and> map_of (z_apps c ! i) ''on_exception'' = Some f \<and> \<not> is_coroutine f
        \<and> (\<forall>j < i. map_of (z_apps c ! j) ''on_exception'' = None)"
  let ?pre = "take i (z_apps c)" and ?post = "drop (Suc i) (z_apps c)"
  from h have split: "z_apps c = ?pre @ (z_apps c ! i) # ?post"
    by (simp add: id_take_nth_drop)
  from h have pre: "\<forall>a \<in> set ?pre. map_of a ''on_exception'' = None"
    by (auto simp: in_set_conv_nth)
  from h have len: "length ?pre = i" by simp
  have "on_exception_from c (?pre @ (z_apps c ! i) # ?post) 0 ex =
      (log_effect c (ExceptionCalled (0 + length ?pre) ex), call f (ExceptionArgs ex))"
    using pre h by (intro on_exception_from_first) simp_all
  with split len show "on_exception c ex = (c\<lparr>z_trace := z_trace c @ [ExceptionCalled i ex]\<rparr>, call f (ExceptionArgs ex))"
    by (simp add: on_exception_def log_effect_def)
  {
    assume q: "\<forall>ex'. call f (ExceptionArgs ex') = None"
    from h q have "reports (z_apps c) (ExceptionCalled i)"
      by (intro reports_first [where f = f]) simp_all
    then show "run_handlers c hs dp ev =
             (c\<lparr>z_trace := z_trace c
                  @ handler_effects (ExceptionCalled i) (map_option (z_heap c) dp) hs dp ev\<rparr>,
              None)"
      by (rule run_handlers_effects)
  }
qed

theorem C9_on_exception_first_app_only_witness:
  "on_exception (ZController [failing_app, basic_app, watcher_app, watcher_app]) (OtherException ''FAIL'')
     = ((ZController [failing_app, basic_app, watcher_app, watcher_app])
          \<lparr>z_trace := [ExceptionCalled 2 (OtherException ''FAIL'')]\<rparr>, None)
   \<and> on_exception (ZController [failing_app, basic_app]) (OtherException ''FAIL'')
     = ((ZController [failing_app, basic_app])
          \<lparr>z_trace := [LogCritical ''Exception in zof handler'' (OtherException ''FAIL'')]\<rparr>, None)
   \<and> z_trace (fst (run_handlers (ZController [failing_app, basic_app, watcher_app, watcher_app])
         [AppHandler 0 ''on_channel_down'' failing, AppHandler 2 ''on_channel_down'' quiet]
         None channel_down_event))
     = [Called 0 ''on_channel_down'' None channel_down_event,
        ExceptionCalled 2 (OtherException ''FAIL''),
        Called 2 ''on_channel_down'' None channel_down_event]"
proof -
  let ?c = "ZController [failing_app, basic_app, watcher_app, watcher_app]"
  let ?d = "ZController [failing_app, basic_app]"
  let ?hs = "[AppHandler 0 ''on_channel_down'' failing, AppHandler 2 ''on_channel_down'' quiet]"
  have none: "\<forall>a \<in> set (z_apps ?d). map_of a ''on_exception'' = None"
    by (simp add: ZController_def failing_app_def basic_app_def)
  have first: "2 < length (z_apps ?c) \<and> map_of (z_apps ?c ! 2) ''on_exception'' = Some quiet
      \<and> \<not> is_coroutine quiet \<and> (\<forall>j < 2. map_of (z_apps ?c ! j) ''on_exception'' = None)"
    by (simp add: ZController_def failing_app_def basic_app_def watcher_app_def quiet_def
        less_Suc_eq numeral_2_eq_2)
  have q: "\<forall>ex'. call quiet (ExceptionArgs ex') = None" by (simp add: quiet_def)
  note th1 = C9_on_exception_first_app_only
    [of ?d "OtherException ''FAIL''" "[]" None channel_down_event 0 quiet]
  note th2 = C9_on_exception_first_app_only
    [of ?c "OtherException ''FAIL''" ?hs None channel_down_event 2 quiet]
  from th1 none have a: "on_exception ?d (OtherException ''FAIL'')
      = (?d\<lparr>z_trace := [LogCritical ''Exception in zof handler'' (OtherException ''FAIL'')]\<rparr>, None)"
    by (simp add: ZController_def)
  from th2 first have b: "on_exception ?c (OtherException ''FAIL'')
      = (?c\<lparr>z_trace := [ExceptionCalled 2 (OtherException ''FAIL'')]\<rparr>, None)"
    by (simp add: ZController_def quiet_def)
  from th2 first q have "run_handlers ?c ?hs None channel_down_event =
      (?c\<lparr>z_trace := z_trace ?c @ handler_effects (ExceptionCalled 2) (map_option (z_heap ?c) None)
          ?hs None channel_down_event\<rparr>, None)"
    by blast
  then have c: "z_trace (fst (run_handlers ?c ?hs None channel_down_event))
      = [Called 0 ''on_channel_down'' None channel_down_event,
         ExceptionCalled 2 (OtherException ''FAIL''),
         Called 2 ''on_channel_down'' None channel_down_event]"
    by (simp add: ZController_def failing_def quiet_def)
  from a b c show ?thesis by simp
qed


section \<open>Shutdown: cleanup before the stop notification\<close>

lemma find_handlers_result:
  assumes "finds c t hs"
  shows "\<exists>cache. zof_find_handlers c t = (c\<lparr>z_handler_cache := cache\<rparr>, Inr hs)
      \<and> map_of cache (handler_name_of t) = Some hs"
proof (cases "map_of (z_handler_cache c) (handler_name_of t)")
  case (Some cached)
  with assms have "cached = hs" by (simp add: finds_def zof_find_handlers_def)
  with Some have "zof_find_handlers c t = (c\<lparr>z_handler_cache := z_handler_cache c\<rparr>, Inr hs)"
    by (simp add: zof_find_handlers_def)
  with Some \<open>cached = hs\<close> show ?thesis by blast
next
  case None
  with assms show ?thesis
    by (auto simp: finds_def zof_find_handlers_def Let_def update_conv' split: sum.splits)
qed

lemma finds_cong:
  assumes "z_handler_cache c' = z_handler_cache c" "z_apps c' = z_apps c"
  shows "finds c' t hs = finds c t hs"
  by (simp add: finds_def zof_find_handlers_def Let_def assms split: option.splits sum.splits)

lemma finds_cached:
  "map_of (z_handler_cache c) (handler_name_of t) = Some hs \<Longrightarrow> finds c t hs"
  by (simp add: finds_def zof_find_handlers_def)

lemma dispatch_effects:
  assumes f: "finds c t hs" and r: "reports (z_apps c) r"
  shows "\<exists>cache. zof_dispatch_event c t dp ev =
        (c\<lparr>z_handler_cache := cache,
           z_trace := z_trace c @ handler_effects r (map_option (z_heap c) dp) hs dp ev\<rparr>, None)
      \<and> map_of cache (handler_name_of t) = Some hs"
proof -
  from find_handlers_result [OF f] obtain cache where
    fh: "zof_find_handlers c t = (c\<lparr>z_handler_cache := cache\<rparr>, Inr hs)"
    and ca: "map_of cache (handler_name_of t) = Some hs" by blast
  have "reports (z_apps (c\<lparr>z_handler_cache := cache\<rparr>)) r" using r by simp
  from run_handlers_effects [OF this, of hs dp ev] fh
  have "zof_dispatch_event c t dp ev =
        (c\<lparr>z_handler_cache := cache,
           z_trace := z_trace c @ handler_effects r (map_option (z_heap c) dp) hs dp ev\<rparr>, None)"
    by (simp add: zof_dispatch_event_def)
  with ca show ?thesis by blast
qed

lemma closed_update_id: "dp_closed d \<Longrightarrow> d\<lparr>dp_closed := True\<rparr> = d"
  by (cases d) simp

lemma cleanup_datapaths_effects:
  assumes "finds c ''CHANNEL_DOWN'' hs" "reports (z_apps c) r" "distinct dps"
  shows "\<exists>c'. cleanup_datapaths c dps = (c', None)
    \<and> z_trace c' = z_trace c
        @ concat (map (\<lambda>dp. close_effects r hs dp (z_heap c dp))
                    (filter (\<lambda>dp. \<not> dp_closed (z_heap c dp)) dps))
    \<and> (\<forall>d. z_heap c' d = (if d \<in> set dps then (z_heap c d)\<lparr>dp_closed := True\<rparr> else z_heap c d))
    \<and> z_connections c' = z_connections c \<and> z_tasks c' = z_tasks c \<and> z_apps c' = z_apps c"
  using assms
proof (induction dps arbitrary: c)
  case Nil
  then show ?case by simp
next
  case (Cons dp rest)
  from Cons.prems have notin: "dp \<notin> set rest" and dist: "distinct rest" by simp_all
  show ?case
  proof (cases "dp_closed (z_heap c dp)")
    case True
    from Cons.IH [OF Cons.prems(1,2) dist] obtain c' where
      run: "cleanup_datapaths c rest = (c', None)"
      and tr: "z_trace c' = z_trace c
        @ concat (map (\<lambda>dp. close_effects r hs dp (z_heap c dp))
                    (filter (\<lambda>dp. \<not> dp_closed (z_heap c dp)) rest))"
      and hp: "\<forall>d. z_heap c' d = (if d \<in> set rest then (z_heap c d)\<lparr>dp_closed := True\<rparr> else z_heap c d)"
      and fr: "z_connections c' = z_connections c \<and> z_tasks c' = z_tasks c \<and> z_apps c' = z_apps c"
      by blast
    have "\<forall>d. z_heap c' d = (if d \<in> set (dp # rest) then (z_heap c d)\<lparr>dp_closed := True\<rparr> else z_heap c d)"
      using hp True notin by (auto simp: closed_update_id)
    with run tr fr True show ?thesis by simp
  next
    case False
    let ?d = "(z_heap c dp)\<lparr>dp_closed := True\<rparr>"
    let ?c1 = "c\<lparr>z_heap := (z_heap c)(dp := ?d)\<rparr>"
    let ?c2 = "zof_cancel_tasks ?c1 dp"
    have c2: "?c2 = c\<lparr>z_heap := (z_heap c)(dp := ?d), z_trace := z_trace c @ map Cancelled (dp_tasks (z_heap c dp))\<rparr>"
      by (simp add: zof_cancel_tasks_def)
    have "z_handler_cache ?c2 = z_handler_cache c" "z_apps ?c2 = z_apps c"
      by (simp_all add: c2)
    from finds_cong [OF this] Cons.prems(1) have f2: "finds ?c2 ''CHANNEL_DOWN'' hs"
      by blast
    have r2: "reports (z_apps ?c2) r" using Cons.prems(2) by (simp add: c2)
    from dispatch_effects [OF f2 r2, of "Some dp" channel_down_event] obtain cache where
      disp: "zof_dispatch_event ?c2 ''CHANNEL_DOWN'' (Some dp) channel_down_event =
        (?c2\<lparr>z_handler_cache := cache,
            z_trace := z_trace ?c2 @ handler_effects r (map_option (z_heap ?c2) (Some dp)) hs (Some dp) channel_down_event\<rparr>, None)"
      and ca: "map_of cache (handler_name_of ''CHANNEL_DOWN'') = Some hs" by blast
    let ?c3 = "?c2\<lparr>z_handler_cache := cache,
            z_trace := z_trace ?c2 @ handler_effects r (map_option (z_heap ?c2) (Some dp)) hs (Some dp) channel_down_event\<rparr>"
    have f3: "finds ?c3 ''CHANNEL_DOWN'' hs" using ca by (intro finds_cached) simp
    have r3: "reports (z_apps ?c3) r" using Cons.prems(2) by (simp add: c2)
    from Cons.IH [OF f3 r3 dist] obtain c' where
      run: "cleanup_datapaths ?c3 rest = (c', None)"
      and tr: "z_trace c' = z_trace ?c3
        @ concat (map (\<lambda>dp. close_effects r hs dp (z_heap ?c3 dp))
                    (filter (\<lambda>dp. \<not> dp_closed (z_heap ?c3 dp)) rest))"
      and hp: "\<forall>d. z_heap c' d = (if d \<in> set rest then (z_heap ?c3 d)\<lparr>dp_closed := True\<rparr> else z_heap ?c3 d)"
      and fr: "z_connections c' = z_connections ?c3 \<and> z_tasks c' = z_tasks ?c3 \<and> z_apps c' = z_apps ?c3"
      by blast
    have heap3: "z_heap ?c3 = (z_heap c)(dp := ?d)" by (simp add: c2)
    have same_filter: "filter (\<lambda>dp. \<not> dp_closed (z_heap ?c3 dp)) rest
        = filter (\<lambda>dp. \<not> dp_closed (z_heap c dp)) rest"
      unfolding heap3 by (rule filter_cong) (use notin in auto)
    have same_map: "map (\<lambda>dp. close_effects r hs dp (z_heap ?c3 dp)) (filter (\<lambda>dp. \<not> dp_closed (z_heap c dp)) rest)
        = map (\<lambda>dp. close_effects r hs dp (z_heap c dp)) (filter (\<lambda>dp. \<not> dp_closed (z_heap c dp)) rest)"
      unfolding heap3 by (rule map_cong) (use notin in auto)
    have t3: "z_trace ?c3 = z_trace c @ close_effects r hs dp (z_heap c dp)"
      by (simp add: c2 close_effects_def)
    have whole: "cleanup_datapaths c (dp # rest) = (c', None)"
      using False disp run by (simp add: Let_def)
    have trace: "z_trace c' = z_trace c
        @ concat (map (\<lambda>dp. close_effects r hs dp (z_heap c dp))
                    (filter (\<lambda>dp. \<not> dp_closed (z_heap c dp)) (dp # rest)))"
      using False tr [unfolded same_filter same_map t3] by simp
    have heap: "\<forall>d. z_heap c' d = (if d \<in> set (dp # rest) then (z_heap c d)\<lparr>dp_closed := True\<rparr> else z_heap c d)"
      using hp notin unfolding heap3 by auto
    have frame: "z_connections c' = z_connections c \<and> z_tasks c' = z_tasks c \<and> z_apps c' = z_apps c"
      using fr by (simp add: c2)
    from whole trace heap frame show ?thesis by blast
  qed
qed

lemma invoke_lifecycle_trace:
  "\<exists>js. z_trace (fst (invoke_lifecycle_from c apps i n)) = z_trace c @ map (\<lambda>j. LifecycleCalled j n) js"
proof (induction apps arbitrary: c i)
  case Nil
  show ?case by (intro exI [of _ "[]"]) simp
next
  case (Cons a apps)
  show ?case
  proof (cases "map_of a n")
    case None
    with Cons.IH [of c "Suc i"] show ?thesis by simp
  next
    case (Some f)
    show ?thesis
    proof (cases "call f NoArgs")
      case None
      from Cons.IH [of "log_effect c (LifecycleCalled i n)" "Suc i"] obtain js where
        "z_trace (fst (invoke_lifecycle_from (log_effect c (LifecycleCalled i n)) apps (Suc i) n))
          = z_trace (log_effect c (LifecycleCalled i n)) @ map (\<lambda>j. LifecycleCalled j n) js"
        by blast
      then have "z_trace (fst (invoke_lifecycle_from c (a # apps) i n))
          = z_trace c @ map (\<lambda>j. LifecycleCalled j n) (i # js)"
        using Some None by (simp add: log_effect_def)
      then show ?thesis by blast
    next
      case (Some ex)
      have "z_trace (fst (invoke_lifecycle_from c (a # apps) i n))
          = z_trace c @ map (\<lambda>j. LifecycleCalled j n) [i]"
        using \<open>map_of a n = Some f\<close> Some by (simp add: log_effect_def)
      then show ?thesis by blast
    qed
  qed
qed

lemma run_cleanup_failure_skips_stop:
  assumes "zof_invoke_lifecycle c0 ''START'' = (c1, None)"
    "zof_cleanup (zof_event_loop c1 events) = (c3, Some ex)"
  shows "run c0 None events = (c3\<lparr>z_trace := z_trace c3 @ [LogCritical ''Exception in run'' ex]\<rparr>, EXIT_STATUS_ERROR)"
  using assms by (simp add: run_def run_failed_def log_effect_def)

text \<open>
  Claim C10. Suppose the handlers of \<^verbatim>\<open>CHANNEL_DOWN\<close> are found without a failed
  assertion, \<^verbatim>\<open>on_exception\<close> returns normally, and the references of the connection
  table are distinct. Then \<^verbatim>\<open>zof_cleanup\<close> returns normally; to the trace it adds, for
  every datapath of the table whose \<^verbatim>\<open>closed\<close> flag was false, the cancellation of its
  tasks and the calls of the handlers with the closed datapath and the event
  \<^verbatim>\<open>{'type': 'CHANNEL_DOWN'}\<close>, and after these the cancellation of the controller's
  tasks and the wait of up to three seconds; every datapath of the table is closed
  afterwards and still in the table. In \<^verbatim>\<open>run\<close> the \<^verbatim>\<open>on_stop\<close> calls come after all of
  this.
\<close>

theorem C10_cleanup_closes_open_datapaths_before_stop:
  assumes f: "finds c ''CHANNEL_DOWN'' hs" and r: "reports (z_apps c) r"
    and d: "distinct (map snd (z_connections c))"
  shows "snd (zof_cleanup c) = None
    \<and> z_trace (fst (zof_cleanup c)) = z_trace c @ cleanup_effects r hs c
    \<and> (\<forall>dp \<in> set (map snd (z_connections c)). dp_closed (z_heap (fst (zof_cleanup c)) dp))
    \<and> z_connections (fst (zof_cleanup c)) = z_connections c
    \<and> (map_of (z_handler_cache c) ''on_channel_down'' = None \<longrightarrow>
         collect_handlers (z_apps c) 0 ''on_channel_down'' = Inr hs)
    \<and> (\<forall>c0 c1 events.
         zof_invoke_lifecycle c0 ''START'' = (c1, None) \<and> zof_event_loop c1 events = c \<longrightarrow>
           (\<exists>js tail.
              z_trace (fst (run c0 None events)) =
                z_trace c @ cleanup_effects r hs c @ map (\<lambda>j. LifecycleCalled j ''on_stop'') js @ tail
              \<and> (tail = [] \<or> (\<exists>ex. tail = [LogCritical ''Exception in run'' ex]))))"
proof -
  from cleanup_datapaths_effects [OF f r d] obtain c' where
    run: "cleanup_datapaths c (map snd (z_connections c)) = (c', None)"
    and tr: "z_trace c' = z_trace c
        @ concat (map (\<lambda>dp. close_effects r hs dp (z_heap c dp))
                    (filter (\<lambda>dp. \<not> dp_closed (z_heap c dp)) (map snd (z_connections c))))"
    and hp: "\<forall>d. z_heap c' d = (if d \<in> set (map snd (z_connections c))
          then (z_heap c d)\<lparr>dp_closed := True\<rparr> else z_heap c d)"
    and fr: "z_connections c' = z_connections c \<and> z_tasks c' = z_tasks c \<and> z_apps c' = z_apps c"
    by blast
  let ?c3 = "c'\<lparr>z_trace := z_trace c' @ map Cancelled (z_tasks c') @ [WaitCancelled 3]\<rparr>"
  have cl: "zof_cleanup c = (?c3, None)" using run by (simp add: zof_cleanup_def)
  have t3: "z_trace ?c3 = z_trace c @ cleanup_effects r hs c"
    using tr fr by (simp add: cleanup_effects_def open_datapaths_def)
  have closed: "\<forall>dp \<in> set (map snd (z_connections c)). dp_closed (z_heap (fst (zof_cleanup c)) dp)"
    using hp by (simp add: cl)
  have coll: "map_of (z_handler_cache c) ''on_channel_down'' = None \<longrightarrow>
         collect_handlers (z_apps c) 0 ''on_channel_down'' = Inr hs"
  proof
    assume "map_of (z_handler_cache c) ''on_channel_down'' = None"
    with f show "collect_handlers (z_apps c) 0 ''on_channel_down'' = Inr hs"
      by (simp add: finds_def zof_find_handlers_def handler_names Let_def split: sum.splits)
  qed
  have stop: "\<exists>js tail.
              z_trace (fst (run c0 None events)) =
                z_trace c @ cleanup_effects r hs c @ map (\<lambda>j. LifecycleCalled j ''on_stop'') js @ tail
              \<and> (tail = [] \<or> (\<exists>ex. tail = [LogCritical ''Exception in run'' ex]))"
    if st: "zof_invoke_lifecycle c0 ''START'' = (c1, None)" and ev: "zof_event_loop c1 events = c"
    for c0 c1 events
  proof -
    obtain c4 res where lc: "zof_invoke_lifecycle ?c3 ''STOP'' = (c4, res)"
      by (cases "zof_invoke_lifecycle ?c3 ''STOP''")
    from invoke_lifecycle_trace [of ?c3 "z_apps ?c3" 0 "''on_stop''"] lc obtain js where
      t4: "z_trace c4 = z_trace ?c3 @ map (\<lambda>j. LifecycleCalled j ''on_stop'') js"
      by (auto simp: zof_invoke_lifecycle_def handler_names)
    show ?thesis
    proof (cases res)
      case None
      with st ev cl lc have "run c0 None events = (c4, EXIT_STATUS_OKAY)"
        by (simp add: run_def)
      then have "z_trace (fst (run c0 None events)) =
          z_trace c @ cleanup_effects r hs c @ map (\<lambda>j. LifecycleCalled j ''on_stop'') js @ []"
        using t4 t3 by simp
      then show ?thesis by blast
    next
      case (Some ex)
      with st ev cl lc have "run c0 None events = run_failed c4 ex"
        by (simp add: run_def)
      then have "z_trace (fst (run c0 None events)) =
          z_trace c @ cleanup_effects r hs c @ map (\<lambda>j. LifecycleCalled j ''on_stop'') js
            @ [LogCritical ''Exception in run'' ex]"
        using t4 t3 by (simp add: run_failed_def log_effect_def)
      then show ?thesis by blast
    qed
  qed
  from cl t3 closed fr coll stop show ?thesis by (simp add: cl)
qed

lemma Z_started_simps:
  "zof_invoke_lifecycle (ZController [basic_app]) ''START''
     = (fst (zof_invoke_lifecycle (ZController [basic_app]) ''START''), None)"
  "z_connections Z_started = [(2, 0)]"
  "z_heap Z_started 0 = \<lparr>dp_id = 1, dp_conn_id = 2, dp_closed = False, dp_tasks = []\<rparr>"
  "z_trace Z_started = [LifecycleCalled 0 ''on_start'', Called 0 ''on_channel_up'' (Some 0) channel_up_2]"
  "z_apps Z_started = [basic_app]"
  "z_tasks Z_started = []"
  "z_handler_cache Z_started = [(''on_channel_up'', [AppHandler 0 ''on_channel_up'' quiet])]"
  by (simp_all add: Z_started_def zof_invoke_lifecycle_def scenario_defs)

lemma Z_up_cache:
  "z_handler_cache Z_up = [(''on_channel_up'', [AppHandler 0 ''on_channel_up'' quiet])]"
  by (simp add: Z_up_def scenario_defs)

theorem C10_cleanup_closes_open_datapaths_before_stop_witness:
  "snd (zof_cleanup Z_busy) = None
   \<and> z_trace (fst (zof_cleanup Z_busy)) =
       [Called 0 ''on_channel_up'' (Some 0) channel_up_2, Cancelled 7,
        Called 0 ''on_channel_down'' (Some 0) channel_down_event, Cancelled 5, WaitCancelled 3]
   \<and> dp_closed (z_heap (fst (zof_cleanup Z_busy)) 0)
   \<and> (\<exists>js tail.
        z_trace (fst (run (ZController [basic_app]) None [channel_up_2])) =
          [LifecycleCalled 0 ''on_start'', Called 0 ''on_channel_up'' (Some 0) channel_up_2,
           Called 0 ''on_channel_down'' (Some 0) channel_down_event, WaitCancelled 3]
          @ map (\<lambda>j. LifecycleCalled j ''on_stop'') js @ tail
        \<and> (tail = [] \<or> (\<exists>ex. tail = [LogCritical ''Exception in run'' ex])))
   \<and> z_trace (fst (run (ZController [basic_app]) None [channel_up_2])) =
        [LifecycleCalled 0 ''on_start'', Called 0 ''on_channel_up'' (Some 0) channel_up_2,
         Called 0 ''on_channel_down'' (Some 0) channel_down_event, WaitCancelled 3,
         LifecycleCalled 0 ''on_stop'']"
proof -
  let ?hs = "[AppHandler 0 ''on_channel_down'' quiet]"
  let ?r = "LogCritical ''Exception in zof handler''"
  have f1: "finds Z_busy ''CHANNEL_DOWN'' ?hs"
    by (simp add: finds_def zof_find_handlers_def handler_names Z_busy_def Z_up_simps Z_up_cache
        basic_app_def Let_def quiet_def)
  have r1: "reports (z_apps Z_busy) ?r"
    by (rule reports_none) (simp add: Z_busy_def Z_up_simps basic_app_def)
  have d1: "distinct (map snd (z_connections Z_busy))"
    by (simp add: Z_busy_def Z_up_simps)
  have e1: "z_trace Z_busy @ cleanup_effects ?r ?hs Z_busy =
      [Called 0 ''on_channel_up'' (Some 0) channel_up_2, Cancelled 7,
       Called 0 ''on_channel_down'' (Some 0) channel_down_event, Cancelled 5, WaitCancelled 3]"
    by (simp add: cleanup_effects_def open_datapaths_def close_effects_def Z_busy_def Z_up_simps
        quiet_def)
  note th1 = C10_cleanup_closes_open_datapaths_before_stop [OF f1 r1 d1]
  from th1 e1 have a: "snd (zof_cleanup Z_busy) = None
      \<and> z_trace (fst (zof_cleanup Z_busy)) =
       [Called 0 ''on_channel_up'' (Some 0) channel_up_2, Cancelled 7,
        Called 0 ''on_channel_down'' (Some 0) channel_down_event, Cancelled 5, WaitCancelled 3]"
    by simp
  from th1 have b: "dp_closed (z_heap (fst (zof_cleanup Z_busy)) 0)"
    by (simp add: Z_busy_def Z_up_simps)
  have f2: "finds Z_started ''CHANNEL_DOWN'' ?hs"
    by (simp add: finds_def zof_find_handlers_def handler_names Z_started_simps basic_app_def
        Let_def quiet_def)
  have r2: "reports (z_apps Z_started) ?r"
    by (rule reports_none) (simp add: Z_started_simps basic_app_def)
  have d2: "distinct (map snd (z_connections Z_started))"
    by (simp add: Z_started_simps)
  have e2: "z_trace Z_started @ cleanup_effects ?r ?hs Z_started =
      [LifecycleCalled 0 ''on_start'', Called 0 ''on_channel_up'' (Some 0) channel_up_2,
       Called 0 ''on_channel_down'' (Some 0) channel_down_event, WaitCancelled 3]"
    by (simp add: cleanup_effects_def open_datapaths_def close_effects_def Z_started_simps quiet_def)
  have s2: "zof_invoke_lifecycle (ZController [basic_app]) ''START''
        = (fst (zof_invoke_lifecycle (ZController [basic_app]) ''START''), None)
      \<and> zof_event_loop (fst (zof_invoke_lifecycle (ZController [basic_app]) ''START'')) [channel_up_2]
        = Z_started"
    using Z_started_simps(1) by (simp add: Z_started_def)
  note th2 = C10_cleanup_closes_open_datapaths_before_stop [OF f2 r2 d2]
  from th2 s2 have "\<exists>js tail.
        z_trace (fst (run (ZController [basic_app]) None [channel_up_2])) =
          z_trace Z_started @ cleanup_effects ?r ?hs Z_started
          @ map (\<lambda>j. LifecycleCalled j ''on_stop'') js @ tail
        \<and> (tail = [] \<or> (\<exists>ex. tail = [LogCritical ''Exception in run'' ex]))"
    by blast
  then have c: "\<exists>js tail.
        z_trace (fst (run (ZController [basic_app]) None [channel_up_2])) =
          [LifecycleCalled 0 ''on_start'', Called 0 ''on_channel_up'' (Some 0) channel_up_2,
           Called 0 ''on_channel_down'' (Some 0) channel_down_event, WaitCancelled 3]
          @ map (\<lambda>j. LifecycleCalled j ''on_stop'') js @ tail
        \<and> (tail = [] \<or> (\<exists>ex. tail = [LogCritical ''Exception in run'' ex]))"
    using e2 by (simp only: append_assoc [symmetric])
  have d: "z_trace (fst (run (ZController [basic_app]) None [channel_up_2])) =
        [LifecycleCalled 0 ''on_start'', Called 0 ''on_channel_up'' (Some 0) channel_up_2,
         Called 0 ''on_channel_down'' (Some 0) channel_down_event, WaitCancelled 3,
         LifecycleCalled 0 ''on_stop'']"
    by (simp add: run_def zof_invoke_lifecycle_def zof_cleanup_def channel_down_event_def
        scenario_defs)
  from a b c d show ?thesis by blast
qed


end
